theory Spec2Isabelle
  imports Main "HOL-Library.Word"
begin

unbundle bit_operations_syntax

section \<open>gsar: the pattern compiler\<close>

text \<open>
  The functions of \<^verbatim>\<open>gsar.c\<close> that turn a command line string into a
  search or replace pattern: \<^verbatim>\<open>GetPattern\<close> (escaped text),
  \<^verbatim>\<open>Text2Byte\<close> and \<^verbatim>\<open>ParseHexLine\<close> (hex digits) and
  \<^verbatim>\<open>DoExpansion\<close> (zero interleaving).

  A C string is the list of its characters before the terminating NUL; the empty list
  is the string whose first character is the terminator. A pattern buffer is the list of
  the bytes stored through the buffer pointer so far, in order: \<^verbatim>\<open>*pBuffer++ = c\<close>
  appends a byte, and \<^verbatim>\<open>pBuffer - pStart\<close> is the length of the list. The size
  of the arrays behind the pointers, \<^verbatim>\<open>PAT_BUFSIZ\<close>, is a macro of
  \<^verbatim>\<open>gsar.h\<close>; the functions that read it take it as their first argument.
\<close>

type_synonym byte = "8 word"

subsection \<open>The C library: character classes and strtol\<close>

definition isdigit :: "char \<Rightarrow> bool" where
  "isdigit c = (48 \<le> (of_char c :: nat) \<and> (of_char c :: nat) \<le> 57)"

definition isupper :: "char \<Rightarrow> bool" where
  "isupper c = (65 \<le> (of_char c :: nat) \<and> (of_char c :: nat) \<le> 90)"

definition islower :: "char \<Rightarrow> bool" where
  "islower c = (97 \<le> (of_char c :: nat) \<and> (of_char c :: nat) \<le> 122)"

definition isxdigit :: "char \<Rightarrow> bool" where
  "isxdigit c = (isdigit c
     \<or> (65 \<le> (of_char c :: nat) \<and> (of_char c :: nat) \<le> 70)
     \<or> (97 \<le> (of_char c :: nat) \<and> (of_char c :: nat) \<le> 102))"

text \<open>Space, and the control characters 9 to 13 (tab, newline, vertical tab, form feed,
  carriage return).\<close>

definition isspace :: "char \<Rightarrow> bool" where
  "isspace c = ((of_char c :: nat) = 32 \<or> (9 \<le> (of_char c :: nat) \<and> (of_char c :: nat) \<le> 13))"

definition toupper :: "char \<Rightarrow> char" where
  "toupper c = (if islower c then char_of ((of_char c :: nat) - 32) else c)"

definition tolower :: "char \<Rightarrow> char" where
  "tolower c = (if isupper c then char_of ((of_char c :: nat) + 32) else c)"

text \<open>The value of a character as a digit of \<^verbatim>\<open>strtol\<close>: the decimal digits,
  then the letters of either case from 10 on.\<close>

definition digit_value :: "char \<Rightarrow> nat option" where
  "digit_value c =
     (if isdigit c then Some ((of_char c :: nat) - 48)
      else if islower c then Some ((of_char c :: nat) - 87)
      else if isupper c then Some ((of_char c :: nat) - 55)
      else None)"

definition digit_in :: "nat \<Rightarrow> char \<Rightarrow> nat option" where
  "digit_in base c =
     (case digit_value c of
        None \<Rightarrow> None
      | Some d \<Rightarrow> if d < base then Some d else None)"

text \<open>The digits \<^verbatim>\<open>strtol\<close> consumes: the value accumulated and the number of
  characters read.\<close>

fun strtol_digits :: "nat \<Rightarrow> string \<Rightarrow> int \<Rightarrow> nat \<Rightarrow> int \<times> nat" where
  "strtol_digits base [] acc n = (acc, n)"
| "strtol_digits base (c # cs) acc n =
     (case digit_in base c of
        None \<Rightarrow> (acc, n)
      | Some d \<Rightarrow> strtol_digits base cs (acc * int base + int d) (Suc n))"

text \<open>
  \<^verbatim>\<open>strtol(s, &pEnd, base)\<close> for base 10 and 16, after the C standard: white space
  is skipped, then an optional sign, for base 16 an optional \<^verbatim>\<open>0x\<close> that a
  hexadecimal digit follows, then the digits. The result is the value and the offset
  of \<^verbatim>\<open>pEnd\<close> from the start of the string; with no digit the value is 0 and
  \<^verbatim>\<open>pEnd\<close> is the start. The clamp to \<^verbatim>\<open>LONG_MAX\<close> is left out:
  gsar calls \<^verbatim>\<open>strtol\<close> on buffers of three characters only.
\<close>

definition strtol :: "string \<Rightarrow> nat \<Rightarrow> int \<times> nat" where
  "strtol s base =
     (let s1 = dropWhile isspace s;
          signed = (s1 \<noteq> [] \<and> (hd s1 = CHR ''-'' \<or> hd s1 = CHR ''+''));
          neg = (s1 \<noteq> [] \<and> hd s1 = CHR ''-'');
          s2 = (if signed then tl s1 else s1);
          prefixed = (base = 16 \<and> 3 \<le> length s2 \<and> s2 ! 0 = CHR ''0''
                      \<and> tolower (s2 ! 1) = CHR ''x'' \<and> digit_in 16 (s2 ! 2) \<noteq> None);
          s3 = (if prefixed then drop 2 s2 else s2);
          (v, n) = strtol_digits base s3 0 0
      in if n = 0 then (0, 0)
         else (if neg then - v else v, (length s - length s3) + n))"

subsection \<open>Abort\<close>

text \<open>
  \<^verbatim>\<open>Abort\<close> prints its message and leaves the program with
  \<^verbatim>\<open>EXIT_FAILURE\<close>. A call of it is the message, one constructor for each
  message of the functions modelled here, with the arguments of its format; in the
  pattern compiler it is the value \<open>Inl\<close> of the message.
  \<open>ReadPastEnd\<close> is no call of \<^verbatim>\<open>Abort\<close>: it marks the point where the
  loop of \<^verbatim>\<open>ParseHexLine\<close> would step over the terminator of its string.
\<close>

datatype abort =
    NotHexNumber string     \<comment> \<open>not a valid hexadecimal number : %s\<close>
  | NotDecimalNumber string \<comment> \<open>not a valid decimal number : %s\<close>
  | SingleColon             \<comment> \<open>a single colon must be followed by ...\<close>
  | BufferTooLong nat       \<comment> \<open>length of search or replace buffer must not exceed %d bytes\<close>
  | HexOddLength            \<comment> \<open>hex string cannot have an odd number of characters\<close>
  | NotHexDigit char        \<comment> \<open>not a valid hexadecimal digit : %c\<close>
  | ExpandedTooLong nat     \<comment> \<open>expanded buffer cannot exceed %d bytes\<close>
  | ReadPastEnd
  | WriteErrorStdout        \<comment> \<open>error in writing file to stdout\<close>
  | CannotOpenInput string  \<comment> \<open>error, unable to open input file '%s'\<close>
  | OutputExists string     \<comment> \<open>error, output file '%s' already exists. Use the 'f' option ...\<close>
  | CannotOpenOutput string \<comment> \<open>error, unable to open output file '%s'\<close>
  | CannotRemoveOutput string \<comment> \<open>error, unable to remove output file '%s'\<close>
  | NoTmpName               \<comment> \<open>error, unable to create a temporary file name\<close>
  | CannotRename string string \<comment> \<open>error, unable to rename file '%s' to '%s'\<close>

text \<open>The two failures of the specification's pattern compiler, and the messages that
  report each.\<close>

datatype pattern_error = MalformedPattern | PatternTooLong

fun error_of :: "abort \<Rightarrow> pattern_error option" where
  "error_of (NotHexNumber s) = Some MalformedPattern"
| "error_of (NotDecimalNumber s) = Some MalformedPattern"
| "error_of SingleColon = Some MalformedPattern"
| "error_of HexOddLength = Some MalformedPattern"
| "error_of (NotHexDigit c) = Some MalformedPattern"
| "error_of (BufferTooLong n) = Some PatternTooLong"
| "error_of (ExpandedTooLong n) = Some PatternTooLong"
| "error_of a = None"

subsection \<open>GetPattern\<close>

text \<open>
  One turn of the loop of \<^verbatim>\<open>GetPattern\<close>, for the character \<open>c\<close> at
  \<^verbatim>\<open>pArgStr\<close> and the string \<open>cs\<close> after it: the byte it stores and the rest
  of the string, or the \<^verbatim>\<open>Abort\<close> it ends in. The cast
  \<^verbatim>\<open>(char) strtol(...)\<close> keeps the low eight bits of the value.
\<close>

definition GetPattern_item :: "char \<Rightarrow> string \<Rightarrow> abort + (byte \<times> string)" where
  "GetPattern_item c cs =
     (if c \<noteq> CHR '':'' then Inr (of_char c, cs)
      else if cs \<noteq> [] \<and> hd cs = CHR '':'' then Inr (of_char c, tl cs)
      else if length cs > 2 then
        (let number = take 3 cs; rest = drop 3 cs in
         if tolower (number ! 0) = CHR ''x'' then
           (let (v, pEnd) = strtol (CHR ''0'' # tl number) 16 in
            if pEnd \<noteq> 3 then Inl (NotHexNumber (tl number))
            else Inr (word_of_int v, rest))
         else
           (let (v, pEnd) = strtol number 10 in
            if pEnd \<noteq> 3 then Inl (NotDecimalNumber number)
            else Inr (word_of_int v, rest)))
      else Inl SingleColon)"

lemma GetPattern_item_shorter:
  "GetPattern_item c cs = Inr (b, rest) \<Longrightarrow> length rest \<le> length cs"
  by (cases cs) (auto simp: GetPattern_item_def Let_def split: if_splits prod.splits)

text \<open>The loop: the length of the buffer is compared with \<^verbatim>\<open>PAT_BUFSIZ\<close> after
  the byte is stored, at the end of each turn.\<close>

function GetPattern_loop :: "nat \<Rightarrow> string \<Rightarrow> byte list \<Rightarrow> abort + byte list" where
  "GetPattern_loop PAT_BUFSIZ [] pBuffer = Inr pBuffer"
| "GetPattern_loop PAT_BUFSIZ (c # cs) pBuffer =
     (case GetPattern_item c cs of
        Inl a \<Rightarrow> Inl a
      | Inr (b, rest) \<Rightarrow>
          if length (pBuffer @ [b]) > PAT_BUFSIZ then Inl (BufferTooLong PAT_BUFSIZ)
          else GetPattern_loop PAT_BUFSIZ rest (pBuffer @ [b]))"
  by pat_completeness auto
termination GetPattern_loop
  by (relation "measure (\<lambda>(P, s, buf). length s)")
    (auto dest: GetPattern_item_shorter simp: less_Suc_eq_le)

declare GetPattern_loop.simps(2) [simp del]

definition GetPattern :: "nat \<Rightarrow> string \<Rightarrow> abort + byte list" where
  "GetPattern PAT_BUFSIZ pArgStr = GetPattern_loop PAT_BUFSIZ pArgStr []"

subsection \<open>Text2Byte and ParseHexLine\<close>

text \<open>\<^verbatim>\<open>Text2Byte\<close> reads the two characters at \<^verbatim>\<open>p\<close> as unsigned
  characters and computes on \<^verbatim>\<open>int\<close>.\<close>

definition Text2Byte :: "char \<Rightarrow> char \<Rightarrow> byte" where
  "Text2Byte p0 p1 =
     (let x = int (of_char (toupper p0)) - 48;
          x = x - (if x > 9 then 7 else 0);
          y = int (of_char (toupper p1)) - 48;
          y = y - (if y > 9 then 7 else 0)
      in word_of_int (push_bit 4 (x AND 15) OR (y AND 15)))"

text \<open>
  The loop of \<^verbatim>\<open>ParseHexLine\<close> tests the character at \<^verbatim>\<open>i\<close> with
  \<^verbatim>\<open>isxdigit\<close>, hands the characters at \<^verbatim>\<open>i\<close> and \<^verbatim>\<open>i + 1\<close>
  to \<^verbatim>\<open>Text2Byte\<close> and steps \<^verbatim>\<open>i\<close> twice. With one character left
  the second character is the terminator, and the next test would read behind it.
\<close>

fun ParseHexLine_loop :: "string \<Rightarrow> byte list \<Rightarrow> abort + byte list" where
  "ParseHexLine_loop [] pOut = Inr pOut"
| "ParseHexLine_loop [c] pOut =
     (if \<not> isxdigit c then Inl (NotHexDigit c) else Inl ReadPastEnd)"
| "ParseHexLine_loop (c # d # rest) pOut =
     (if \<not> isxdigit c then Inl (NotHexDigit c)
      else ParseHexLine_loop rest (pOut @ [Text2Byte c d]))"

definition ParseHexLine :: "string \<Rightarrow> abort + byte list" where
  "ParseHexLine pIn =
     (if odd (length pIn) then Inl HexOddLength else ParseHexLine_loop pIn [])"

subsection \<open>DoExpansion\<close>

text \<open>
  \<^verbatim>\<open>DoExpansion\<close> copies the first \<^verbatim>\<open>Len\<close> bytes of the buffer to
  \<^verbatim>\<open>TmpBuf\<close> and stores, from the start of the buffer, each of them and a zero
  after it. The list \<open>pBuf\<close> is the pattern in the buffer, of \<^verbatim>\<open>Len\<close> bytes
  at least; the result is the bytes stored.
\<close>

function DoExpansion_loop :: "byte list \<Rightarrow> nat \<Rightarrow> nat \<Rightarrow> byte list \<Rightarrow> byte list" where
  "DoExpansion_loop TmpBuf Len i pBuf =
     (if i < Len then DoExpansion_loop TmpBuf Len (i + 1) (pBuf @ [TmpBuf ! i, 0])
      else pBuf)"
  by pat_completeness auto
termination DoExpansion_loop
  by (relation "measure (\<lambda>(TmpBuf, Len, i, pBuf). Len - i)") auto

declare DoExpansion_loop.simps [simp del]

definition DoExpansion :: "nat \<Rightarrow> byte list \<Rightarrow> nat \<Rightarrow> abort + byte list" where
  "DoExpansion PAT_BUFSIZ pBuf Len =
     (if Len * 2 > PAT_BUFSIZ then Inl (ExpandedTooLong PAT_BUFSIZ)
      else Inr (DoExpansion_loop (take Len pBuf) Len 0 []))"

text \<open>
  The options \<^verbatim>\<open>-s\<close> and \<^verbatim>\<open>-r\<close> of \<^verbatim>\<open>GetArgs\<close>: the string
  is compiled by \<^verbatim>\<open>ParseHexLine\<close> or \<^verbatim>\<open>GetPattern\<close>, and a pattern that
  is not empty is expanded when \<^verbatim>\<open>fWideString\<close> is set. The result is the
  pattern: the first \<^verbatim>\<open>nItemsSearch\<close> bytes of the buffer.
\<close>

definition compile_pattern :: "nat \<Rightarrow> bool \<Rightarrow> bool \<Rightarrow> string \<Rightarrow> abort + byte list" where
  "compile_pattern PAT_BUFSIZ fStringAsHex fWideString pOptArg =
     (case (if fStringAsHex then ParseHexLine pOptArg else GetPattern PAT_BUFSIZ pOptArg) of
        Inl a \<Rightarrow> Inl a
      | Inr buf \<Rightarrow>
          if fWideString \<and> length buf \<noteq> 0 then DoExpansion PAT_BUFSIZ buf (length buf)
          else Inr buf)"

subsection \<open>What the specification calls decoding a hex literal\<close>

text \<open>
  The specification's hex literal mode, in its own words: every character is a
  hexadecimal digit, and each adjacent pair of digits is one byte, the first digit the
  high half. These two definitions follow the specification, not the code; the code is
  compared with them below.
\<close>

definition hex_value :: "char \<Rightarrow> nat" where
  "hex_value c =
     (if isdigit c then (of_char c :: nat) - 48
      else if islower c then (of_char c :: nat) - 87
      else (of_char c :: nat) - 55)"

fun decode_pairs :: "string \<Rightarrow> byte list" where
  "decode_pairs (a # b # rest) = of_nat (16 * hex_value a + hex_value b) # decode_pairs rest"
| "decode_pairs [a] = []"
| "decode_pairs [] = []"

section \<open>gsar: files, the interrupt handler and the replace modes\<close>

text \<open>
  The file system is a map from a regular file to its bytes; directories, permissions
  and owners are not part of it. The program knows a file by a path name, and a file has
  more than one: \<^verbatim>\<open>f\<close> and \<^verbatim>\<open>./f\<close> are the same file. The operating
  system resolves every name that \<^verbatim>\<open>stat\<close>, \<^verbatim>\<open>fopen\<close>,
  \<^verbatim>\<open>remove\<close> and \<^verbatim>\<open>rename\<close> are given: \<open>file_of\<close> is the
  file that a name refers to, written as the one canonical name of the file, also for a
  name under which no file exists yet. Two names refer to the same file when
  \<open>file_of\<close> gives the same for both. Links are not part of the model: a file
  has one entry in one directory, and \<^verbatim>\<open>remove\<close> under any of its names
  removes the file.

  What the program prints through
  \<^verbatim>\<open>Ctrl.fpMsg\<close> is a list of messages, each with the stream it went to, and
  each call of \<^verbatim>\<open>remove\<close>, \<^verbatim>\<open>rename\<close> and
  \<^verbatim>\<open>fopen(..., "wb")\<close> is recorded with the names it was given and its
  success.

  \<^verbatim>\<open>BMG_Search\<close> and \<^verbatim>\<open>BMG_SearchReplace\<close> are functions of
  \<^verbatim>\<open>gsarbmg.c\<close>, which is not among the sources. What a call returns and the
  bytes it writes to \<^verbatim>\<open>Ctrl.fpOut\<close> are parameters, as is whether the
  operating system lets a file be opened, created, removed or renamed: the fields of
  \<open>env\<close>.
\<close>

type_synonym file_id = string

datatype stream = Stdout | Stderr

datatype handle = Std_Stream stream | File_Handle file_id

datatype message =
    MatchesFound string int string       \<comment> \<open>%s: %ld match%s found\<close>
  | OccurrencesChanged string int string \<comment> \<open>%s: %ld occurrence%s changed\<close>
  | UnableToOpenInput string             \<comment> \<open>gsar: unable to open input file '%s'\<close>
  | ErrorWritingFile string              \<comment> \<open>gsar: error in writing file '%s' - cleaning up\<close>
  | UnableToRemoveInput string           \<comment> \<open>gsar: error, unable to remove input file '%s' before rename\<close>

datatype syscall =
    Remove string bool
  | Rename string string bool
  | Create string bool

datatype outcome = Returned | Exit_Failure | Aborted abort

record state =
  fs :: "file_id \<rightharpoonup> byte list"
  stdout_data :: "byte list"
  calls :: "syscall list"
  messages :: "(stream \<times> message) list"
  fpMsg :: stream
  fpOut :: "handle option"
  pInputFile :: "string option"
  pOutFile :: "string option"
  fCriticalPart :: bool
  fSearchReplace :: bool
  fFilter :: bool
  fForce :: bool
  TmpNum :: "int option"
  nMatches :: int

record env =
  bmg_matches :: int
  bmg_output :: "byte list"
  can_open :: "string \<Rightarrow> bool"
  can_create :: "string \<Rightarrow> bool"
  can_remove :: "string \<Rightarrow> bool"
  can_rename :: "string \<Rightarrow> string \<Rightarrow> bool"
  file_of :: "string \<Rightarrow> file_id"

subsection \<open>The C library on files\<close>

text \<open>A null pointer is \<open>None\<close>; a call with a null name fails, and \<^verbatim>\<open>%s\<close>
  prints it as \<^verbatim>\<open>(null)\<close>.\<close>

definition str :: "string option \<Rightarrow> string" where
  "str p = (case p of None \<Rightarrow> ''(null)'' | Some f \<Rightarrow> f)"

definition stat :: "env \<Rightarrow> (file_id \<rightharpoonup> byte list) \<Rightarrow> string option \<Rightarrow> bool" where
  "stat env files p = (case p of None \<Rightarrow> False | Some f \<Rightarrow> files (file_of env f) \<noteq> None)"

definition say :: "message \<Rightarrow> state \<Rightarrow> state" where
  "say m s = s\<lparr>messages := messages s @ [(fpMsg s, m)]\<rparr>"

definition c_remove :: "env \<Rightarrow> string option \<Rightarrow> state \<Rightarrow> bool \<times> state" where
  "c_remove env p s =
     (case p of
        None \<Rightarrow> (False, s)
      | Some f \<Rightarrow>
          if fs s (file_of env f) \<noteq> None \<and> can_remove env f
          then (True, s\<lparr>fs := (fs s)(file_of env f := None), calls := calls s @ [Remove f True]\<rparr>)
          else (False, s\<lparr>calls := calls s @ [Remove f False]\<rparr>))"

text \<open>\<^verbatim>\<open>rename\<close> of a file to a name of its own succeeds and changes nothing;
  another file of the new name is replaced.\<close>

definition c_rename :: "env \<Rightarrow> string option \<Rightarrow> string option \<Rightarrow> state \<Rightarrow> bool \<times> state" where
  "c_rename env old new s =
     (case (old, new) of
        (Some a, Some b) \<Rightarrow>
          if fs s (file_of env a) \<noteq> None \<and> can_rename env a b
          then (True, s\<lparr>fs := (if file_of env a = file_of env b then fs s
                                else ((fs s)(file_of env b := fs s (file_of env a)))
                                       (file_of env a := None)),
                         calls := calls s @ [Rename a b True]\<rparr>)
          else (False, s\<lparr>calls := calls s @ [Rename a b False]\<rparr>)
      | _ \<Rightarrow> (False, s))"

text \<open>\<^verbatim>\<open>Ctrl.fpOut = fopen(name, "wb")\<close>: the file is created, or cut to no
  bytes when it exists.\<close>

definition fopen_wb :: "env \<Rightarrow> string option \<Rightarrow> state \<Rightarrow> bool \<times> state" where
  "fopen_wb env p s =
     (case p of
        None \<Rightarrow> (False, s\<lparr>fpOut := None\<rparr>)
      | Some f \<Rightarrow>
          if can_create env f
          then (True, s\<lparr>fs := (fs s)(file_of env f \<mapsto> []),
                         fpOut := Some (File_Handle (file_of env f)),
                         calls := calls s @ [Create f True]\<rparr>)
          else (False, s\<lparr>fpOut := None, calls := calls s @ [Create f False]\<rparr>))"

text \<open>\<^verbatim>\<open>fopen(name, "rb")\<close>: whether the file can be opened for reading.\<close>

definition fopen_rb :: "env \<Rightarrow> string option \<Rightarrow> state \<Rightarrow> bool" where
  "fopen_rb env p s =
     (case p of None \<Rightarrow> False | Some f \<Rightarrow> fs s (file_of env f) \<noteq> None \<and> can_open env f)"

subsection \<open>The search functions of gsarbmg.c\<close>

definition BMG_Search :: "env \<Rightarrow> state \<Rightarrow> int \<times> state" where
  "BMG_Search env s = (bmg_matches env, s)"

definition BMG_SearchReplace :: "env \<Rightarrow> state \<Rightarrow> int \<times> state" where
  "BMG_SearchReplace env s =
     (bmg_matches env,
      case fpOut s of
        None \<Rightarrow> s
      | Some (Std_Stream x) \<Rightarrow> s\<lparr>stdout_data := stdout_data s @ bmg_output env\<rparr>
      | Some (File_Handle f) \<Rightarrow> s\<lparr>fs := (fs s)(f \<mapsto> bmg_output env)\<rparr>)"

subsection \<open>CtrlBreak\<close>

text \<open>The handler of \<^verbatim>\<open>SIGINT\<close>: it returns, or it leaves the program with
  \<^verbatim>\<open>exit(EXIT_FAILURE)\<close> after it has tried to remove the output file.\<close>

definition CtrlBreak :: "env \<Rightarrow> state \<Rightarrow> outcome \<times> state" where
  "CtrlBreak env s =
     (if fCriticalPart s then (Returned, s)
      else if fSearchReplace s \<and> pOutFile s \<noteq> None \<and> \<not> fFilter s
        then (Exit_Failure, snd (c_remove env (pOutFile s) s))
      else (Exit_Failure, s))"

subsection \<open>ExtractPathFromFSpec and TmpName\<close>

definition IS_PATH_DELIM :: "char \<Rightarrow> bool" where
  "IS_PATH_DELIM c = (c = CHR 0x5C \<or> c = CHR '':'' \<or> c = CHR ''/'')"

text \<open>The pointer goes back from the end of the string to the first position that
  follows a delimiter, or to the start; the string is cut there.\<close>

definition ExtractPathFromFSpec :: "string \<Rightarrow> string" where
  "ExtractPathFromFSpec filespec = rev (dropWhile (\<lambda>c. \<not> IS_PATH_DELIM c) (rev filespec))"

definition SHRT_MAX :: nat where
  "SHRT_MAX = 32767"

definition hex_digit :: "nat \<Rightarrow> char" where
  "hex_digit d = ''0123456789abcdef'' ! d"

function to_hex :: "nat \<Rightarrow> string" where
  "to_hex n = (if n < 16 then [hex_digit n] else to_hex (n div 16) @ [hex_digit (n mod 16)])"
  by pat_completeness auto
termination to_hex
  by (relation "measure id") auto

declare to_hex.simps [simp del]

text \<open>\<^verbatim>\<open>sprintf(pDigits, "%04x", TmpNum)\<close>, for a number that is not negative.\<close>

definition sprintf_04x :: "int \<Rightarrow> string" where
  "sprintf_04x n = (let h = to_hex (nat n) in replicate (4 - length h) CHR ''0'' @ h)"

text \<open>The loop of \<^verbatim>\<open>TmpName\<close>: \<open>spec\<close> is the path and the prefix, \<open>i\<close> the
  counter of the loop and \<open>n\<close> the static \<^verbatim>\<open>TmpNum\<close>.\<close>

function TmpName_loop :: "env \<Rightarrow> (file_id \<rightharpoonup> byte list) \<Rightarrow> string \<Rightarrow> nat \<Rightarrow> int
    \<Rightarrow> string option \<times> int" where
  "TmpName_loop env files spec i n =
     (if i \<le> SHRT_MAX then
        (if \<not> stat env files (Some (spec @ sprintf_04x (n + 1) @ ''.tmp''))
         then (Some (spec @ sprintf_04x (n + 1) @ ''.tmp''), n + 1)
         else TmpName_loop env files spec (i + 1) (n + 1))
      else (None, n))"
  by pat_completeness auto
termination TmpName_loop
  by (relation "measure (\<lambda>(env, files, spec, i, n). SHRT_MAX + 1 - i)") auto

declare TmpName_loop.simps [simp del]

text \<open>The static \<^verbatim>\<open>Seed\<close> and \<^verbatim>\<open>TmpNum\<close> are one value: \<open>None\<close> before
  the first call, which sets \<^verbatim>\<open>TmpNum\<close> to -1.\<close>

definition TmpName :: "env \<Rightarrow> (file_id \<rightharpoonup> byte list) \<Rightarrow> string option \<Rightarrow> string option
    \<Rightarrow> int option \<Rightarrow> string option \<times> int option" where
  "TmpName env files pPath pPrefix tmpnum =
     (let n = (case tmpnum of None \<Rightarrow> - 1 | Some k \<Rightarrow> k);
          spec = (case pPath of None \<Rightarrow> [] | Some p \<Rightarrow> p)
               @ (case pPrefix of None \<Rightarrow> [] | Some p \<Rightarrow> p);
          (name, n') = TmpName_loop env files spec 0 n
      in (name, Some n'))"

subsection \<open>StreamSearchReplace\<close>

definition StreamSearchReplace :: "env \<Rightarrow> state \<Rightarrow> outcome \<times> state" where
  "StreamSearchReplace env s0 =
     (let s1 = s0\<lparr>pInputFile := Some ''stdin'', fpMsg := Stderr, fpOut := Some (Std_Stream Stdout)\<rparr> in
      if \<not> fSearchReplace s1 then
        (let (n, s2) = BMG_Search env s1 in
         if n > 0
         then (Returned, say (MatchesFound (str (pInputFile s2)) n (if n = 1 then [] else ''es'')) s2)
         else (Returned, s2))
      else
        (let (n, s2) = BMG_SearchReplace env s1 in
         if n = - 1 then (Aborted WriteErrorStdout, s2)
         else if n > 1
         then (Returned, say (OccurrencesChanged (str (pInputFile s2)) n (if n > 1 then ''s'' else [])) s2)
         else (Returned, s2)))"

subsection \<open>fCheckFile\<close>

text \<open>Every file of the model is a regular file: the test of \<^verbatim>\<open>S_ISREG\<close> never
  fails.\<close>

definition fCheckFile :: "env \<Rightarrow> string option \<Rightarrow> state \<Rightarrow> bool \<times> state" where
  "fCheckFile env pFileName s =
     (if \<not> stat env (fs s) pFileName then (False, say (UnableToOpenInput (str pFileName)) s)
      else (True, s))"

subsection \<open>OneSearchReplace\<close>

text \<open>The loop over \<^verbatim>\<open>pFileList\<close>: the first name is the input file, and the
  second is the output file unless \<^verbatim>\<open>pOutFile\<close> is set already.\<close>

fun pick_files :: "string list \<Rightarrow> state \<Rightarrow> state" where
  "pick_files [] s = s"
| "pick_files (f # fl) s =
     pick_files fl
       (if pInputFile s = None then s\<lparr>pInputFile := Some f\<rparr>
        else if pOutFile s = None then s\<lparr>pOutFile := Some f\<rparr>
        else s)"

definition OneSearchReplace :: "env \<Rightarrow> string list \<Rightarrow> state \<Rightarrow> outcome \<times> state" where
  "OneSearchReplace env pFileList s0 =
     (let s1 = pick_files pFileList (s0\<lparr>fpMsg := Stdout, pInputFile := None\<rparr>);
          (ok, s2) = fCheckFile env (pInputFile s1) s1
      in if \<not> ok then (Exit_Failure, s2)
         else if \<not> fopen_rb env (pInputFile s2) s2
           then (Aborted (CannotOpenInput (str (pInputFile s2))), s2)
         else if stat env (fs s2) (pOutFile s2) \<and> \<not> fForce s2
           then (Aborted (OutputExists (str (pOutFile s2))), s2)
         else
           (let (opened, s3) = fopen_wb env (pOutFile s2) s2 in
            if \<not> opened then (Aborted (CannotOpenOutput (str (pOutFile s3))), s3)
            else
              (let (n, s4) = BMG_SearchReplace env s3;
                   s5 = s4\<lparr>fpOut := None, fCriticalPart := True\<rparr>
               in if n = - 1 then
                    (let s6 = say (ErrorWritingFile (str (pOutFile s5))) s5;
                         (removed, s7) = c_remove env (pOutFile s6) s6
                     in if \<not> removed then (Aborted (CannotRemoveOutput (str (pOutFile s7))), s7)
                        else (Exit_Failure, s7))
                  else if n = 0 then
                    (let (removed, s6) = c_remove env (pOutFile s5) s5
                     in if \<not> removed then (Aborted (CannotRemoveOutput (str (pOutFile s6))), s6)
                        else (Returned, s6\<lparr>pOutFile := None, fCriticalPart := False\<rparr>))
                  else
                    (Returned,
                     (say (OccurrencesChanged (str (pInputFile s5)) n (if n > 1 then ''s'' else [])) s5)
                       \<lparr>pOutFile := None, fCriticalPart := False\<rparr>))))"

subsection \<open>SearchReplace\<close>

text \<open>
  One turn of the loop of \<^verbatim>\<open>SearchReplace\<close>, for the file \<open>inp\<close>, as a machine
  that runs one statement in a step. A label is the line of the statement that runs
  next; \<open>Stop\<close> is the end of the turn: \<open>Returned\<close> when the loop goes on with the
  next file (also by \<^verbatim>\<open>continue\<close>), or the way the program has ended.

  \<^item> 891: \<^verbatim>\<open>Ctrl.pInputFile = *pFileList++\<close>; 893: \<^verbatim>\<open>fCheckFile\<close>;
    896: \<^verbatim>\<open>fopen\<close> of the input file.
  \<^item> 904 and 905: \<^verbatim>\<open>pOutFile\<close> is the path of the input file, then the name
    \<^verbatim>\<open>TmpName\<close> makes of it; 908: \<^verbatim>\<open>fopen\<close> of the temporary file.
  \<^item> 913: \<^verbatim>\<open>chown\<close> and \<^verbatim>\<open>chmod\<close>, which change nothing in this
    file system.
  \<^item> 931: the call of \<^verbatim>\<open>BMG_SearchReplace\<close>, one step; 933: both files are
    closed.
  \<^item> 936: \<^verbatim>\<open>fCriticalPart = 1\<close>, and the tests of \<^verbatim>\<open>nMatches\<close> of
    lines 938 and 946, which choose the next statement.
  \<^item> 940 to 943: the write error; 948: zero matches; 955 to 966: the commit, and 957 to
    960 the input file that could not be removed.
  \<^item> 969: \<^verbatim>\<open>fCriticalPart = 0\<close>.
\<close>

datatype label =
    L891 | L893 | L896 | L904 | L905 | L908 | L913 | L931 | L933 | L936
  | L940 | L941 | L943 | L948 | L955 | L957 | L958 | L960 | L963 | L966 | L969
  | Stop outcome

fun is_stop :: "label \<Rightarrow> bool" where
  "is_stop (Stop out) = True"
| "is_stop l = False"

fun step :: "env \<Rightarrow> string \<Rightarrow> label \<times> state \<Rightarrow> label \<times> state" where
  "step env inp (L891, s) = (L893, s\<lparr>pInputFile := Some inp\<rparr>)"
| "step env inp (L893, s) =
     (case fCheckFile env (pInputFile s) s of
        (False, s') \<Rightarrow> (Stop Returned, s')
      | (True, s') \<Rightarrow> (L896, s'))"
| "step env inp (L896, s) =
     (if \<not> fopen_rb env (pInputFile s) s
      then (Stop Returned, say (UnableToOpenInput (str (pInputFile s))) s)
      else (L904, s))"
| "step env inp (L904, s) =
     (L905, s\<lparr>pOutFile := Some (ExtractPathFromFSpec (str (pInputFile s)))\<rparr>)"
| "step env inp (L905, s) =
     (case TmpName env (fs s) (pOutFile s) (Some ''gsr_'') (TmpNum s) of
        (None, n) \<Rightarrow> (Stop (Aborted NoTmpName), s\<lparr>pOutFile := None, TmpNum := n\<rparr>)
      | (Some f, n) \<Rightarrow> (L908, s\<lparr>pOutFile := Some f, TmpNum := n\<rparr>))"
| "step env inp (L908, s) =
     (case fopen_wb env (pOutFile s) s of
        (False, s') \<Rightarrow> (Stop (Aborted (CannotOpenOutput (str (pOutFile s')))), s')
      | (True, s') \<Rightarrow> (L913, s'))"
| "step env inp (L913, s) = (L931, s)"
| "step env inp (L931, s) =
     (case BMG_SearchReplace env s of (n, s') \<Rightarrow> (L933, s'\<lparr>nMatches := n\<rparr>))"
| "step env inp (L933, s) = (L936, s\<lparr>fpOut := None\<rparr>)"
| "step env inp (L936, s) =
     (if nMatches s = - 1 then L940 else if nMatches s = 0 then L948 else L955,
      s\<lparr>fCriticalPart := True\<rparr>)"
| "step env inp (L940, s) = (L941, say (ErrorWritingFile (str (pOutFile s))) s)"
| "step env inp (L941, s) =
     (case c_remove env (pOutFile s) s of
        (False, s') \<Rightarrow> (Stop (Aborted (CannotRemoveOutput (str (pOutFile s')))), s')
      | (True, s') \<Rightarrow> (L943, s'))"
| "step env inp (L943, s) = (Stop Exit_Failure, s)"
| "step env inp (L948, s) =
     (case c_remove env (pOutFile s) s of
        (False, s') \<Rightarrow> (Stop (Aborted (CannotRemoveOutput (str (pOutFile s')))), s')
      | (True, s') \<Rightarrow> (L969, s'))"
| "step env inp (L955, s) =
     (case c_remove env (pInputFile s) s of
        (False, s') \<Rightarrow> (L957, s')
      | (True, s') \<Rightarrow> (L963, s'))"
| "step env inp (L957, s) = (L958, say (UnableToRemoveInput (str (pInputFile s))) s)"
| "step env inp (L958, s) =
     (case c_remove env (pOutFile s) s of
        (False, s') \<Rightarrow> (Stop (Aborted (CannotRemoveOutput (str (pOutFile s')))), s')
      | (True, s') \<Rightarrow> (L960, s'))"
| "step env inp (L960, s) = (Stop Exit_Failure, s)"
| "step env inp (L963, s) =
     (case c_rename env (pOutFile s) (pInputFile s) s of
        (False, s') \<Rightarrow>
          (Stop (Aborted (CannotRename (str (pOutFile s')) (str (pInputFile s')))), s')
      | (True, s') \<Rightarrow> (L966, s'))"
| "step env inp (L966, s) =
     (L969, say (OccurrencesChanged (str (pInputFile s)) (nMatches s)
                   (if nMatches s > 1 then ''s'' else [])) s)"
| "step env inp (L969, s) = (Stop Returned, s\<lparr>fCriticalPart := False\<rparr>)"
| "step env inp (Stop out, s) = (Stop out, s)"

fun rank :: "label \<Rightarrow> nat" where
  "rank L891 = 21" | "rank L893 = 20" | "rank L896 = 19" | "rank L904 = 18"
| "rank L905 = 17" | "rank L908 = 16" | "rank L913 = 15" | "rank L931 = 14"
| "rank L933 = 13" | "rank L936 = 12" | "rank L940 = 11" | "rank L941 = 10"
| "rank L943 = 9" | "rank L948 = 11" | "rank L955 = 11" | "rank L957 = 10"
| "rank L958 = 9" | "rank L960 = 8" | "rank L963 = 7" | "rank L966 = 6"
| "rank L969 = 1" | "rank (Stop out) = 0"

lemma rank_step: "\<not> is_stop l \<Longrightarrow> rank (fst (step env inp (l, s))) < rank l"
  by (cases l) (auto split: prod.splits bool.splits option.splits)

text \<open>The turn of the loop, run to its end.\<close>

function exec :: "env \<Rightarrow> string \<Rightarrow> label \<times> state \<Rightarrow> label \<times> state" where
  "exec env inp c = (if is_stop (fst c) then c else exec env inp (step env inp c))"
  by pat_completeness auto
termination exec
  by (relation "measure (\<lambda>(env, inp, c). rank (fst c))") (auto simp: rank_step)

declare exec.simps [simp del]

text \<open>An interrupt between two statements runs the handler: the program goes on where
  it was when the handler returns.\<close>

definition interrupt :: "env \<Rightarrow> label \<times> state \<Rightarrow> label \<times> state" where
  "interrupt env c =
     (case CtrlBreak env (snd c) of
        (Returned, s') \<Rightarrow> (fst c, s')
      | (out, s') \<Rightarrow> (Stop out, s'))"

text \<open>The configurations of a turn that starts in the state \<open>s0\<close>, with interrupts
  at any point.\<close>

inductive reachable :: "env \<Rightarrow> string \<Rightarrow> state \<Rightarrow> label \<times> state \<Rightarrow> bool"
  for env :: env and inp :: string and s0 :: state where
    start: "reachable env inp s0 (L891, s0)"
  | step: "reachable env inp s0 c \<Longrightarrow> \<not> is_stop (fst c) \<Longrightarrow> reachable env inp s0 (step env inp c)"
  | interrupt: "reachable env inp s0 c \<Longrightarrow> \<not> is_stop (fst c) \<Longrightarrow> reachable env inp s0 (interrupt env c)"

text \<open>\<^verbatim>\<open>SearchReplace\<close>: the turns for the files of \<^verbatim>\<open>pFileList\<close>, each
  with its own results of the search and of the operating system. A turn ends at a
  \<open>Stop\<close>, so the last case is never taken.\<close>

fun SearchReplace_loop :: "(string \<Rightarrow> env) \<Rightarrow> string list \<Rightarrow> state \<Rightarrow> outcome \<times> state" where
  "SearchReplace_loop envs [] s = (Returned, s)"
| "SearchReplace_loop envs (f # fl) s =
     (case exec (envs f) f (L891, s) of
        (Stop Returned, s') \<Rightarrow> SearchReplace_loop envs fl s'
      | (Stop out, s') \<Rightarrow> (out, s')
      | (l, s') \<Rightarrow> (Returned, s'))"

definition SearchReplace :: "(string \<Rightarrow> env) \<Rightarrow> string list \<Rightarrow> state \<Rightarrow> outcome \<times> state" where
  "SearchReplace envs pFileList s = SearchReplace_loop envs pFileList (s\<lparr>fpMsg := Stdout\<rparr>)"

section \<open>Predicates of the properties\<close>

text \<open>The labels at which \<^verbatim>\<open>fCriticalPart\<close> is set: the statements between
  lines 936 and 969, and the end of the program in the \<^verbatim>\<open>Abort\<close> of a failed
  \<^verbatim>\<open>rename\<close>.\<close>

fun critical_label :: "label \<Rightarrow> bool" where
  "critical_label L940 = True"
| "critical_label L941 = True"
| "critical_label L943 = True"
| "critical_label L948 = True"
| "critical_label L955 = True"
| "critical_label L957 = True"
| "critical_label L958 = True"
| "critical_label L960 = True"
| "critical_label L963 = True"
| "critical_label L966 = True"
| "critical_label L969 = True"
| "critical_label (Stop (Aborted (CannotRename a b))) = True"
| "critical_label l = False"

text \<open>The commit: the input file is about to be removed (line 955), the temporary file
  is about to be renamed (line 963), the rename is done (line 966), or the rename has
  failed and the program has ended in its \<^verbatim>\<open>Abort\<close>.\<close>

fun commit_section :: "label \<Rightarrow> bool" where
  "commit_section L955 = True"
| "commit_section L963 = True"
| "commit_section L966 = True"
| "commit_section (Stop (Aborted (CannotRename a b))) = True"
| "commit_section l = False"

text \<open>The temporary file exists beside the input file: \<^verbatim>\<open>pOutFile\<close> names a
  file that was not there in the state \<open>s0\<close>, and every other file is as it was.\<close>

definition with_temp :: "env \<Rightarrow> string \<Rightarrow> state \<Rightarrow> state \<Rightarrow> bool" where
  "with_temp env inp s0 s =
     (pInputFile s = Some inp \<and> fs s0 (file_of env inp) \<noteq> None
      \<and> (\<exists>t. pOutFile s = Some t \<and> fs s0 (file_of env t) = None \<and> fs s (file_of env t) \<noteq> None
             \<and> (\<forall>p. p \<noteq> file_of env t \<longrightarrow> fs s p = fs s0 p)))"

text \<open>What holds when the turn is over: a file that was not there at the start is the
  one \<^verbatim>\<open>pOutFile\<close> names, and when there is one, the input file is as it was,
  unless a \<^verbatim>\<open>rename\<close> has failed.\<close>

definition ended :: "env \<Rightarrow> string \<Rightarrow> state \<Rightarrow> outcome \<Rightarrow> state \<Rightarrow> bool" where
  "ended env inp s0 out s =
     ((\<forall>p. fs s p \<noteq> None \<and> fs s0 p = None \<longrightarrow> (\<exists>t. pOutFile s = Some t \<and> file_of env t = p))
      \<and> ((\<exists>p. fs s p \<noteq> None \<and> fs s0 p = None) \<longrightarrow>
           (fs s0 (file_of env inp) \<noteq> None \<and> fs s (file_of env inp) = fs s0 (file_of env inp))
           \<or> (\<exists>a b. out = Aborted (CannotRename a b))))"

text \<open>The files at each label of a turn that started in \<open>s0\<close>.\<close>

fun inv :: "env \<Rightarrow> string \<Rightarrow> state \<Rightarrow> label \<Rightarrow> state \<Rightarrow> bool" where
  "inv env inp s0 L891 s = (fs s = fs s0)"
| "inv env inp s0 L893 s = (fs s = fs s0 \<and> pInputFile s = Some inp)"
| "inv env inp s0 L896 s =
     (fs s = fs s0 \<and> pInputFile s = Some inp \<and> fs s0 (file_of env inp) \<noteq> None)"
| "inv env inp s0 L904 s =
     (fs s = fs s0 \<and> pInputFile s = Some inp \<and> fs s0 (file_of env inp) \<noteq> None)"
| "inv env inp s0 L905 s =
     (fs s = fs s0 \<and> pInputFile s = Some inp \<and> fs s0 (file_of env inp) \<noteq> None)"
| "inv env inp s0 L908 s =
     (fs s = fs s0 \<and> pInputFile s = Some inp \<and> fs s0 (file_of env inp) \<noteq> None
      \<and> (\<exists>t. pOutFile s = Some t \<and> fs s0 (file_of env t) = None))"
| "inv env inp s0 L913 s =
     (with_temp env inp s0 s
      \<and> fpOut s = map_option (\<lambda>t. File_Handle (file_of env t)) (pOutFile s))"
| "inv env inp s0 L931 s =
     (with_temp env inp s0 s
      \<and> fpOut s = map_option (\<lambda>t. File_Handle (file_of env t)) (pOutFile s))"
| "inv env inp s0 L933 s = with_temp env inp s0 s"
| "inv env inp s0 L936 s = with_temp env inp s0 s"
| "inv env inp s0 L940 s = with_temp env inp s0 s"
| "inv env inp s0 L941 s = with_temp env inp s0 s"
| "inv env inp s0 L943 s = (fs s = fs s0)"
| "inv env inp s0 L948 s = with_temp env inp s0 s"
| "inv env inp s0 L955 s = with_temp env inp s0 s"
| "inv env inp s0 L957 s = with_temp env inp s0 s"
| "inv env inp s0 L958 s = with_temp env inp s0 s"
| "inv env inp s0 L960 s = (fs s = fs s0)"
| "inv env inp s0 L963 s =
     (pInputFile s = Some inp \<and> fs s0 (file_of env inp) \<noteq> None
      \<and> (\<exists>t. pOutFile s = Some t \<and> fs s0 (file_of env t) = None \<and> fs s (file_of env t) \<noteq> None
             \<and> fs s (file_of env inp) = None
             \<and> (\<forall>p. p \<noteq> file_of env t \<and> p \<noteq> file_of env inp \<longrightarrow> fs s p = fs s0 p)))"
| "inv env inp s0 L966 s =
     (fs s0 (file_of env inp) \<noteq> None \<and> (\<forall>p. p \<noteq> file_of env inp \<longrightarrow> fs s p = fs s0 p))"
| "inv env inp s0 L969 s =
     (fs s0 (file_of env inp) \<noteq> None \<and> (\<forall>p. p \<noteq> file_of env inp \<longrightarrow> fs s p = fs s0 p))"
| "inv env inp s0 (Stop out) s = ended env inp s0 out s"

fun is_rename :: "syscall \<Rightarrow> bool" where
  "is_rename (Rename a b r) = True"
| "is_rename c = False"

text \<open>
  The end of a turn of \<^verbatim>\<open>SearchReplace\<close> that has discarded its output: no
  \<^verbatim>\<open>rename\<close> was called, every file that was there at the start is as it was,
  and a file that was not there is left only when the program has ended in the
  \<^verbatim>\<open>Abort\<close> for an output file that could not be removed, and is that file;
  when the turn has come to its end, the files are those of the start.
\<close>

definition discarded :: "env \<Rightarrow> state \<Rightarrow> label \<Rightarrow> state \<Rightarrow> bool" where
  "discarded env s0 l s =
     (filter is_rename (calls s) = filter is_rename (calls s0)
      \<and> (\<forall>p. fs s0 p \<noteq> None \<longrightarrow> fs s p = fs s0 p)
      \<and> (l = Stop Returned \<longrightarrow> fs s = fs s0)
      \<and> (\<forall>p. fs s p \<noteq> None \<and> fs s0 p = None \<longrightarrow>
            (\<exists>t. l = Stop (Aborted (CannotRemoveOutput t)) \<and> pOutFile s = Some t
                 \<and> file_of env t = p)))"

text \<open>
  The same for \<^verbatim>\<open>OneSearchReplace\<close> with the output name \<open>out\<close>: no
  \<^verbatim>\<open>rename\<close> was called, every file but the one \<open>out\<close> refers to is as it
  was, that file does not exist when the function has returned, and it is left with
  other bytes than before only when the program has ended in the \<^verbatim>\<open>Abort\<close>
  for an output file that could not be removed. The files are those of the start unless
  the function has returned or the program has ended in that \<^verbatim>\<open>Abort\<close>.
\<close>

definition discarded_output :: "env \<Rightarrow> string \<Rightarrow> state \<Rightarrow> outcome \<Rightarrow> state \<Rightarrow> bool" where
  "discarded_output env out s0 r s =
     (filter is_rename (calls s) = filter is_rename (calls s0)
      \<and> (\<forall>p. p \<noteq> file_of env out \<longrightarrow> fs s p = fs s0 p)
      \<and> (r = Returned \<longrightarrow> fs s (file_of env out) = None)
      \<and> (fs s (file_of env out) \<noteq> None \<and> fs s (file_of env out) \<noteq> fs s0 (file_of env out)
           \<longrightarrow> r = Aborted (CannotRemoveOutput out))
      \<and> (fs s = fs s0 \<or> r = Returned \<or> r = Aborted (CannotRemoveOutput out)))"

text \<open>A run to try the properties on: one file \<^verbatim>\<open>f\<close> with the byte
  \<^verbatim>\<open>a\<close>, one match, the output \<^verbatim>\<open>b\<close>, and an operating system that
  lets every call succeed and in which every file has one name.\<close>

definition example_env :: env where
  "example_env = \<lparr>bmg_matches = 1, bmg_output = [98], can_open = (\<lambda>f. True),
     can_create = (\<lambda>f. True), can_remove = (\<lambda>f. True), can_rename = (\<lambda>a b. True),
     file_of = (\<lambda>f. f)\<rparr>"

text \<open>The same operating system, in which \<^verbatim>\<open>./f\<close> is one more name of the
  file \<^verbatim>\<open>f\<close>.\<close>

definition alias_env :: env where
  "alias_env = example_env\<lparr>file_of := (\<lambda>f. if f = ''./f'' then ''f'' else f)\<rparr>"

definition example_state :: state where
  "example_state = \<lparr>fs = [''f'' \<mapsto> [97]], stdout_data = [], calls = [], messages = [],
     fpMsg = Stdout, fpOut = None, pInputFile = None, pOutFile = None, fCriticalPart = False,
     fSearchReplace = True, fFilter = False, fForce = False, TmpNum = None, nMatches = 0\<rparr>"

section \<open>Properties of the pattern compiler\<close>

subsection \<open>GetPattern\<close>

lemma GetPattern_item_append:
  assumes "GetPattern_item c cs = Inr (b, rest)"
  shows "GetPattern_item c (cs @ suf) = Inr (b, rest @ suf)"
proof (cases cs)
  case Nil
  with assms show ?thesis
    by (auto simp: GetPattern_item_def split: if_splits)
next
  case (Cons d ds)
  with assms show ?thesis
    by (auto simp: GetPattern_item_def Let_def split: if_splits prod.splits)
qed

text \<open>A string that compiles is compiled the same way when more characters follow it:
  the loop goes on from the end of the string with the buffer it has filled.\<close>

lemma GetPattern_loop_append:
  "GetPattern_loop P pre buf = Inr bs \<Longrightarrow>
   GetPattern_loop P (pre @ suf) buf = GetPattern_loop P suf bs"
proof (induction P pre buf rule: GetPattern_loop.induct)
  case (1 P buf)
  then show ?case by simp
next
  case (2 P c cs buf)
  from "2.prems" obtain b rest where
    item: "GetPattern_item c cs = Inr (b, rest)" and
    len: "\<not> length (buf @ [b]) > P" and
    rec: "GetPattern_loop P rest (buf @ [b]) = Inr bs"
    by (subst (asm) GetPattern_loop.simps) (auto split: sum.splits if_splits)
  have "GetPattern_loop P (rest @ suf) (buf @ [b]) = GetPattern_loop P suf bs"
    using "2.IH" [OF item refl len rec] .
  moreover have "GetPattern_item c (cs @ suf) = Inr (b, rest @ suf)"
    using item by (rule GetPattern_item_append)
  ultimately show ?case
    using len by (simp add: GetPattern_loop.simps(2))
qed

lemma GetPattern_append:
  "GetPattern P pre = Inr bs \<Longrightarrow> GetPattern P (pre @ suf) = GetPattern_loop P suf bs"
  by (simp add: GetPattern_def GetPattern_loop_append)

lemma single_colon:
  "length rest < 3 \<Longrightarrow> rest = [] \<or> hd rest \<noteq> CHR '':'' \<Longrightarrow>
   GetPattern_item CHR '':'' rest = Inl SingleColon"
  by (auto simp: GetPattern_item_def)

text \<open>A pattern that \<^verbatim>\<open>GetPattern\<close> returns fits the buffer.\<close>

lemma GetPattern_loop_length:
  "GetPattern_loop P s buf = Inr bs \<Longrightarrow> length buf \<le> P \<Longrightarrow> length bs \<le> P"
proof (induction P s buf rule: GetPattern_loop.induct)
  case (1 P buf)
  then show ?case by simp
next
  case (2 P c cs buf)
  from "2.prems" obtain b rest where
    item: "GetPattern_item c cs = Inr (b, rest)" and
    len: "\<not> length (buf @ [b]) > P" and
    rec: "GetPattern_loop P rest (buf @ [b]) = Inr bs"
    by (subst (asm) GetPattern_loop.simps) (auto split: sum.splits if_splits)
  from len have "length (buf @ [b]) \<le> P" by simp
  then show ?case
    using "2.IH" [OF item refl len rec] by simp
qed

lemma GetPattern_length: "GetPattern P s = Inr bs \<Longrightarrow> length bs \<le> P"
  by (auto simp: GetPattern_def dest: GetPattern_loop_length)

text \<open>No turn of the loop ends in the \<^verbatim>\<open>Abort\<close> for the length of the
  buffer by itself: that one comes from the test at the end of the turn.\<close>

lemma GetPattern_item_fits: "GetPattern_item c cs \<noteq> Inl (BufferTooLong n)"
  by (auto simp: GetPattern_item_def Let_def split: prod.splits)

text \<open>A string that is too long for the buffer stays too long when more characters
  follow it.\<close>

lemma GetPattern_loop_too_long_append:
  "GetPattern_loop P pre buf = Inl (BufferTooLong n) \<Longrightarrow>
   GetPattern_loop P (pre @ suf) buf = Inl (BufferTooLong n)"
proof (induction P pre buf rule: GetPattern_loop.induct)
  case (1 P buf)
  then show ?case by simp
next
  case (2 P c cs buf)
  obtain b rest where item: "GetPattern_item c cs = Inr (b, rest)"
  proof (cases "GetPattern_item c cs")
    case (Inl a)
    with "2.prems" have "GetPattern_item c cs = Inl (BufferTooLong n)"
      by (simp add: GetPattern_loop.simps(2))
    then show ?thesis by (simp add: GetPattern_item_fits)
  next
    case (Inr x)
    with that show ?thesis by (cases x) simp
  qed
  then have item': "GetPattern_item c (cs @ suf) = Inr (b, rest @ suf)"
    by (rule GetPattern_item_append)
  show ?case
  proof (cases "length (buf @ [b]) > P")
    case True
    with "2.prems" item item' show ?thesis by (simp add: GetPattern_loop.simps(2))
  next
    case False
    with "2.prems" item have "GetPattern_loop P rest (buf @ [b]) = Inl (BufferTooLong n)"
      by (simp add: GetPattern_loop.simps(2))
    from "2.IH" [OF item refl False this] item' False show ?thesis
      by (simp add: GetPattern_loop.simps(2))
  qed
qed

lemma GetPattern_too_long_append:
  "GetPattern P pre = Inl (BufferTooLong n) \<Longrightarrow> GetPattern P (pre @ suf) = Inl (BufferTooLong n)"
  by (simp add: GetPattern_def GetPattern_loop_too_long_append)

text \<open>For every size of the buffer there is a string that is too long for it: one
  character more than the buffer holds.\<close>

lemma GetPattern_loop_plain_too_long:
  "length buf \<le> P \<Longrightarrow> P < length buf + n \<Longrightarrow>
   GetPattern_loop P (replicate n CHR ''a'') buf = Inl (BufferTooLong P)"
proof (induction n arbitrary: buf)
  case 0
  then show ?case by simp
next
  case (Suc n)
  have item: "GetPattern_item CHR ''a'' (replicate n CHR ''a'') = Inr (97, replicate n CHR ''a'')"
    by (simp add: GetPattern_item_def)
  show ?case
  proof (cases "length (buf @ [97 :: byte]) > P")
    case True
    with item show ?thesis by (simp add: GetPattern_loop.simps(2))
  next
    case False
    with Suc.prems have "GetPattern_loop P (replicate n CHR ''a'') (buf @ [97]) = Inl (BufferTooLong P)"
      by (intro Suc.IH) simp_all
    with item False show ?thesis by (simp add: GetPattern_loop.simps(2))
  qed
qed

lemma GetPattern_plain_too_long:
  "GetPattern P (replicate (Suc P) CHR ''a'') = Inl (BufferTooLong P)"
  by (simp add: GetPattern_def GetPattern_loop_plain_too_long del: replicate_Suc)

text \<open>
  Claim C2 as stated fails: not every string that ends in a single marker ends in the
  \<^verbatim>\<open>Abort\<close> of a single colon. When the characters before the marker fill
  the buffer, the test of line 370 ends the loop before the marker is read, with the
  message for the length of the buffer, a \<open>PatternTooLong\<close>: here with a buffer of
  two bytes and the string \<^verbatim>\<open>abc:\<close>.
\<close>

theorem GetPattern_trailing_marker_counterexample:
  "GetPattern 2 ''abc:'' = Inl (BufferTooLong 2)
   \<and> error_of (BufferTooLong 2) = Some PatternTooLong
   \<and> error_of (BufferTooLong 2) \<noteq> Some MalformedPattern"
  by (simp add: GetPattern_def GetPattern_loop.simps GetPattern_item_def)

text \<open>
  Claim C2, as the code has it. With a buffer of at least seven bytes,
  \<^verbatim>\<open>GetPattern\<close> compiles \<^verbatim>\<open>a:: b:120c:x41\<close> to the seven bytes
  \<^verbatim>\<open>a\<close>, \<^verbatim>\<open>:\<close>, space, \<^verbatim>\<open>b\<close>, 120, \<^verbatim>\<open>c\<close>, 0x41.
  A string that ends in a single marker with fewer than three characters after it (the
  marker, then at most two characters of which the first is no marker) fails: with the
  message of a single colon, a \<open>MalformedPattern\<close>, when the string \<open>pre\<close>
  before the marker compiles; and with the message for the length of the buffer, a
  \<open>PatternTooLong\<close>, when \<open>pre\<close> is too long for the buffer.
\<close>

theorem GetPattern_escape_forms:
  "(7 \<le> P \<longrightarrow> GetPattern P ''a:: b:120c:x41'' = Inr [97, 58, 32, 98, 120, 99, 65]) \<and>
   (\<forall>pre bs rest. GetPattern P pre = Inr bs \<and> length rest < 3
        \<and> (rest = [] \<or> hd rest \<noteq> CHR '':'') \<longrightarrow>
      GetPattern P (pre @ CHR '':'' # rest) = Inl SingleColon
      \<and> error_of SingleColon = Some MalformedPattern) \<and>
   (\<forall>pre rest. GetPattern P pre = Inl (BufferTooLong P) \<longrightarrow>
      GetPattern P (pre @ CHR '':'' # rest) = Inl (BufferTooLong P)
      \<and> error_of (BufferTooLong P) = Some PatternTooLong)"
proof (intro conjI impI allI)
  assume "7 \<le> P"
  then show "GetPattern P ''a:: b:120c:x41'' = Inr [97, 58, 32, 98, 120, 99, 65]"
    by (simp add: GetPattern_def GetPattern_loop.simps GetPattern_item_def strtol_def isspace_def
      tolower_def isupper_def islower_def digit_in_def digit_value_def isdigit_def Let_def)
next
  fix pre bs rest
  assume a: "GetPattern P pre = Inr bs \<and> length rest < 3 \<and> (rest = [] \<or> hd rest \<noteq> CHR '':'')"
  then have "GetPattern_item CHR '':'' rest = Inl SingleColon"
    by (intro single_colon) simp_all
  then have "GetPattern_loop P (CHR '':'' # rest) bs = Inl SingleColon"
    by (simp add: GetPattern_loop.simps(2))
  with a show "GetPattern P (pre @ CHR '':'' # rest) = Inl SingleColon"
    by (simp add: GetPattern_append)
next
  show "error_of SingleColon = Some MalformedPattern" by simp
next
  fix pre rest
  assume "GetPattern P pre = Inl (BufferTooLong P)"
  then show "GetPattern P (pre @ CHR '':'' # rest) = Inl (BufferTooLong P)"
    by (rule GetPattern_too_long_append)
next
  show "error_of (BufferTooLong P) = Some PatternTooLong" by simp
qed

theorem GetPattern_escape_forms_witness:
  "GetPattern 256 ''a:: b:120c:x41'' = Inr [97, 58, 32, 98, 120, 99, 65] \<and>
   GetPattern 256 ''ab'' = Inr [97, 98] \<and>
   GetPattern 256 ''ab:12'' = Inl SingleColon \<and>
   GetPattern 256 ''ab:'' = Inl SingleColon \<and>
   GetPattern 2 ''abc'' = Inl (BufferTooLong 2) \<and>
   GetPattern 2 ''abc:'' = Inl (BufferTooLong 2)"
proof -
  have ab: "GetPattern 256 ''ab'' = Inr [97, 98]"
    by (simp add: GetPattern_def GetPattern_loop.simps GetPattern_item_def)
  have abc: "GetPattern 2 ''abc'' = Inl (BufferTooLong 2)"
    by (simp add: GetPattern_def GetPattern_loop.simps GetPattern_item_def)
  note t = GetPattern_escape_forms [of 256]
  note u = GetPattern_escape_forms [of 2]
  have "GetPattern 256 ''a:: b:120c:x41'' = Inr [97, 58, 32, 98, 120, 99, 65]"
    using t [THEN conjunct1] by simp
  moreover have "GetPattern 256 (''ab'' @ CHR '':'' # ''12'') = Inl SingleColon"
    using t [THEN conjunct2, THEN conjunct1, rule_format, of "''ab''" "[97, 98]" "''12''"] ab
    by simp
  moreover have "GetPattern 256 (''ab'' @ CHR '':'' # []) = Inl SingleColon"
    using t [THEN conjunct2, THEN conjunct1, rule_format, of "''ab''" "[97, 98]" "[]"] ab
    by simp
  moreover have "GetPattern 2 (''abc'' @ CHR '':'' # []) = Inl (BufferTooLong 2)"
    using u [THEN conjunct2, THEN conjunct2, rule_format, of "''abc''" "[]"] abc
    by simp
  ultimately show ?thesis using ab abc by simp
qed

subsection \<open>The decimal escape\<close>

lemma isdigit_facts:
  "isdigit a \<Longrightarrow> \<not> isspace a \<and> a \<noteq> CHR ''-'' \<and> a \<noteq> CHR ''+'' \<and> a \<noteq> CHR '':''
     \<and> tolower a = a \<and> a \<noteq> CHR ''x''
     \<and> digit_in 10 a = Some ((of_char a :: nat) - 48)"
  by (auto simp: isdigit_def isspace_def tolower_def isupper_def digit_in_def digit_value_def)

lemma strtol_three_digits:
  assumes "isdigit a" "isdigit b" "isdigit c"
  shows "strtol [a, b, c] 10 =
    (int (100 * ((of_char a :: nat) - 48) + 10 * ((of_char b :: nat) - 48) + ((of_char c :: nat) - 48)), 3)"
  using assms [THEN isdigit_facts]
  by (simp add: strtol_def)

lemma decimal_item:
  assumes "isdigit a" "isdigit b" "isdigit c"
  shows "GetPattern_item CHR '':'' (a # b # c # rest) =
    Inr (of_nat (100 * ((of_char a :: nat) - 48) + 10 * ((of_char b :: nat) - 48) + ((of_char c :: nat) - 48)), rest)"
  using strtol_three_digits [OF assms] isdigit_facts [OF assms(1)]
  by (simp add: GetPattern_item_def)

text \<open>
  Claim C3, as the code has it. A single marker and three decimal digits after a string
  that compiles, with room for one more byte, never fail: they add the byte whose value
  is the decimal value \<open>v\<close> of the digits modulo 256, which is \<open>v\<close> itself up to 255.
  Nothing in \<^verbatim>\<open>GetPattern\<close> compares the value with 255: the result of
  \<^verbatim>\<open>strtol\<close> is cast to \<^verbatim>\<open>char\<close>.
\<close>

theorem decimal_escape_wraps:
  assumes "isdigit a" "isdigit b" "isdigit c"
    and "GetPattern P pre = Inr bs" and "length bs < P"
  shows "\<exists>v. v = 100 * ((of_char a :: nat) - 48) + 10 * ((of_char b :: nat) - 48) + ((of_char c :: nat) - 48)
     \<and> GetPattern P (pre @ [CHR '':'', a, b, c]) = Inr (bs @ [of_nat v])
     \<and> unat (of_nat v :: byte) = v mod 256"
proof -
  let ?v = "100 * ((of_char a :: nat) - 48) + 10 * ((of_char b :: nat) - 48) + ((of_char c :: nat) - 48)"
  have "GetPattern_loop P [CHR '':'', a, b, c] bs = Inr (bs @ [of_nat ?v])"
    using decimal_item [OF assms(1-3), of "[]"] assms(5)
    by (simp add: GetPattern_loop.simps(2))
  then have "GetPattern P (pre @ [CHR '':'', a, b, c]) = Inr (bs @ [of_nat ?v])"
    using assms(4) by (simp add: GetPattern_append)
  moreover have "unat (of_nat ?v :: byte) = ?v mod 256"
    by (simp only: unat_of_nat) simp
  ultimately show ?thesis by blast
qed

theorem decimal_escape_wraps_witness:
  "GetPattern 256 ''b:120'' = Inr [98, 120] \<and> GetPattern 256 ''b:999'' = Inr [98, 231]
   \<and> unat (231 :: byte) = 999 mod 256"
proof -
  have b: "GetPattern 256 ''b'' = Inr [98]"
    by (simp add: GetPattern_def GetPattern_loop.simps GetPattern_item_def)
  have d: "isdigit CHR ''1''" "isdigit CHR ''2''" "isdigit CHR ''0''" "isdigit CHR ''9''"
    by (simp_all add: isdigit_def)
  have "GetPattern 256 (''b'' @ [CHR '':'', CHR ''1'', CHR ''2'', CHR ''0'']) = Inr ([98] @ [120])"
    using decimal_escape_wraps [OF d(1) d(2) d(3) b] by simp
  moreover have "GetPattern 256 (''b'' @ [CHR '':'', CHR ''9'', CHR ''9'', CHR ''9'']) = Inr ([98] @ [231])
     \<and> unat (231 :: byte) = 999 mod 256"
    using decimal_escape_wraps [OF d(4) d(4) d(4) b] by simp
  ultimately show ?thesis by simp
qed

text \<open>Claim C3 as stated fails: \<^verbatim>\<open>:999\<close> does not end in an
  \<^verbatim>\<open>Abort\<close>, it compiles to the one byte 231, which is 999 modulo 256.\<close>

theorem decimal_999_counterexample:
  "GetPattern 256 '':999'' = Inr [231]"
  by (simp add: GetPattern_def GetPattern_loop.simps GetPattern_item_def strtol_def isspace_def
    tolower_def isupper_def digit_in_def digit_value_def isdigit_def Let_def)

subsection \<open>Text2Byte and ParseHexLine\<close>

lemma nibbles:
  assumes "0 \<le> x" "x < 16" "0 \<le> y" "y < 16"
  shows "push_bit 4 (x AND 15) OR (y AND 15) = 16 * x + (y::int)"
proof -
  have m: "(15::int) = mask 4" by (simp add: mask_eq_exp_minus_1)
  have x: "x AND 15 = x" and y: "y AND 15 = y"
    using assms by (simp_all add: m flip: take_bit_eq_mask add: take_bit_int_eq_self)
  have "push_bit 4 x OR y = take_bit 4 y OR push_bit 4 x"
    using assms by (simp add: take_bit_int_eq_self or.commute)
  also have "\<dots> = take_bit 4 y + push_bit 4 x"
    by (simp flip: concat_bit_def add: concat_bit_eq)
  also have "\<dots> = 16 * x + y"
    using assms by (simp add: take_bit_int_eq_self push_bit_eq_mult)
  finally show ?thesis by (simp add: x y)
qed

lemma toupper_hex:
  "isxdigit c \<Longrightarrow>
   (let x = int (of_char (toupper c)) - 48 in x - (if x > 9 then 7 else 0)) = int (hex_value c)"
  by (auto simp: isxdigit_def isdigit_def islower_def toupper_def hex_value_def Let_def)

lemma hex_value_less: "isxdigit c \<Longrightarrow> hex_value c < 16"
  by (auto simp: isxdigit_def isdigit_def islower_def hex_value_def)

text \<open>On two hexadecimal digits \<^verbatim>\<open>Text2Byte\<close> is the byte of the pair.\<close>

lemma Text2Byte_hex:
  assumes "isxdigit a" "isxdigit b"
  shows "Text2Byte a b = of_nat (16 * hex_value a + hex_value b)"
proof -
  have "Text2Byte a b =
    word_of_int (push_bit 4 (int (hex_value a) AND 15) OR (int (hex_value b) AND 15))"
    using toupper_hex [OF assms(1)] toupper_hex [OF assms(2)]
    by (simp add: Text2Byte_def Let_def)
  also have "push_bit 4 (int (hex_value a) AND 15) OR (int (hex_value b) AND 15)
     = 16 * int (hex_value a) + int (hex_value b)"
    using hex_value_less [OF assms(1)] hex_value_less [OF assms(2)]
    by (intro nibbles) simp_all
  finally show ?thesis by simp
qed

lemma ParseHexLine_loop_decodes:
  "even (length s) \<Longrightarrow> \<forall>c\<in>set s. isxdigit c \<Longrightarrow>
   ParseHexLine_loop s out = Inr (out @ decode_pairs s)"
  by (induction s out rule: ParseHexLine_loop.induct) (simp_all add: Text2Byte_hex)

lemma length_decode_pairs: "length (decode_pairs s) = length s div 2"
  by (induction s rule: decode_pairs.induct) simp_all

text \<open>The part of claim C1 that holds: a string of an even number of hexadecimal digits
  compiles to the bytes of its pairs, half as many as it has digits, and a string of odd
  length ends in the \<^verbatim>\<open>Abort\<close> for odd length.\<close>

lemma ParseHexLine_decodes:
  "even (length s) \<Longrightarrow> \<forall>c\<in>set s. isxdigit c \<Longrightarrow>
   ParseHexLine s = Inr (decode_pairs s) \<and> length (decode_pairs s) = length s div 2"
  by (simp add: ParseHexLine_def ParseHexLine_loop_decodes length_decode_pairs)

lemma ParseHexLine_odd:
  "odd (length s) \<Longrightarrow> ParseHexLine s = Inl HexOddLength \<and> error_of HexOddLength = Some MalformedPattern"
  by (simp add: ParseHexLine_def)

text \<open>And a character that is no hexadecimal digit ends in the \<^verbatim>\<open>Abort\<close> that
  names it when it is the first character of a pair, after pairs of digits.\<close>

lemma ParseHexLine_loop_prefix:
  "even (length pre) \<Longrightarrow> \<forall>c\<in>set pre. isxdigit c \<Longrightarrow>
   ParseHexLine_loop (pre @ s) out = ParseHexLine_loop s (out @ decode_pairs pre)"
  by (induction pre out rule: ParseHexLine_loop.induct) (simp_all add: Text2Byte_hex)

lemma ParseHexLine_first_of_pair:
  assumes "even (length pre)" and "\<forall>c\<in>set pre. isxdigit c"
    and "\<not> isxdigit c" and "odd (length rest)"
  shows "ParseHexLine (pre @ c # rest) = Inl (NotHexDigit c)
    \<and> error_of (NotHexDigit c) = Some MalformedPattern"
proof -
  from assms(4) obtain d rest' where "rest = d # rest'" by (cases rest) auto
  with assms show ?thesis
    by (simp add: ParseHexLine_def ParseHexLine_loop_prefix)
qed

text \<open>
  Claim C1 says that a string with a character that is no hexadecimal digit fails with
  \<open>MalformedPattern\<close>. The loop of \<^verbatim>\<open>ParseHexLine\<close> tests the first character
  of each pair only: \<^verbatim>\<open>2g\<close> has even length, \<^verbatim>\<open>g\<close> is no hexadecimal
  digit, and the string compiles to the byte 0x20.
\<close>

theorem ParseHexLine_second_digit_unchecked:
  "ParseHexLine ''2g'' = Inr [0x20] \<and> \<not> isxdigit CHR ''g''"
  by code_simp

lemma isxdigit_toupper: "isxdigit (toupper c) = isxdigit c"
  by (auto simp: isxdigit_def isdigit_def islower_def toupper_def)

lemma isxdigit_case: "toupper a = toupper a' \<Longrightarrow> isxdigit a = isxdigit a'"
  by (metis isxdigit_toupper)

lemma ParseHexLine_loop_case:
  "list_all2 (\<lambda>a b. toupper a = toupper b) s t \<Longrightarrow> \<forall>c\<in>set s. isxdigit c \<Longrightarrow>
   ParseHexLine_loop t out = ParseHexLine_loop s out"
proof (induction s out arbitrary: t rule: ParseHexLine_loop.induct)
  case (1 pOut)
  then show ?case by simp
next
  case (2 c pOut)
  from "2.prems"(1) obtain c' where t: "t = [c']" and c: "toupper c = toupper c'"
    by (cases t) simp_all
  from "2.prems"(2) have "isxdigit c" by simp
  moreover from this have "isxdigit c'" using isxdigit_case [OF c] by simp
  ultimately show ?case using t by simp
next
  case (3 c d rest pOut)
  from "3.prems"(1) obtain c' t' where t': "t = c' # t'"
    and c: "toupper c = toupper c'"
    and r': "list_all2 (\<lambda>a b. toupper a = toupper b) (d # rest) t'"
    by (cases t) simp_all
  from r' obtain d' rest' where t'': "t' = d' # rest'"
    and d: "toupper d = toupper d'"
    and r: "list_all2 (\<lambda>a b. toupper a = toupper b) rest rest'"
    by (cases t') simp_all
  from "3.prems"(2) have x: "isxdigit c" and xs: "\<forall>c\<in>set rest. isxdigit c" by simp_all
  from x have x': "isxdigit c'" using isxdigit_case [OF c] by simp
  have b: "Text2Byte c' d' = Text2Byte c d"
    using c d by (simp add: Text2Byte_def)
  have "ParseHexLine_loop rest' (pOut @ [Text2Byte c d]) = ParseHexLine_loop rest (pOut @ [Text2Byte c d])"
    using x r xs by (intro "3.IH") simp_all
  then show ?case
    by (simp add: t' t'' x x' b)
qed

text \<open>
  Claim C10. Let \<open>s\<close> be a string of an even number of hexadecimal digits and \<open>t\<close> a
  string that differs from \<open>s\<close> in the case of letters only (character by character,
  the two have the same upper case form). Then \<^verbatim>\<open>ParseHexLine\<close> returns the
  same bytes for both, one byte for two digits.
\<close>

theorem ParseHexLine_case_insensitive:
  assumes "even (length s)" and "\<forall>c\<in>set s. isxdigit c"
    and "list_all2 (\<lambda>a b. toupper a = toupper b) s t"
  shows "ParseHexLine t = ParseHexLine s \<and> (\<exists>bs. ParseHexLine s = Inr bs \<and> 2 * length bs = length s)"
proof -
  from assms(3) have "length t = length s" by (simp add: list_all2_lengthD)
  with assms have "ParseHexLine t = ParseHexLine s"
    by (simp add: ParseHexLine_def ParseHexLine_loop_case)
  moreover from assms(1,2) have "ParseHexLine s = Inr (decode_pairs s)"
    "2 * length (decode_pairs s) = length s"
    by (simp_all add: ParseHexLine_decodes length_decode_pairs)
  ultimately show ?thesis by simp
qed

theorem ParseHexLine_case_insensitive_witness:
  "ParseHexLine ''2F'' = ParseHexLine ''2f'' \<and> ParseHexLine ''2f'' = Inr [0x2F]"
proof -
  have e: "even (length ''2f'')" by simp
  have x: "\<forall>c\<in>set ''2f''. isxdigit c" by code_simp
  have v: "list_all2 (\<lambda>a b. toupper a = toupper b) ''2f'' ''2F''" by code_simp
  have "ParseHexLine ''2f'' = Inr [0x2F]" by code_simp
  with ParseHexLine_case_insensitive [OF e x v] show ?thesis by simp
qed

subsection \<open>DoExpansion\<close>

lemma DoExpansion_loop_eq:
  "i \<le> Len \<Longrightarrow> Len \<le> length T \<Longrightarrow>
   DoExpansion_loop T Len i out = out @ concat (map (\<lambda>b. [b, 0]) (drop i (take Len T)))"
proof (induction T Len i out rule: DoExpansion_loop.induct)
  case (1 T Len i out)
  show ?case
  proof (cases "i < Len")
    case True
    with "1.prems" have d: "drop i (take Len T) = T ! i # drop (Suc i) (take Len T)"
      by (simp add: Cons_nth_drop_Suc [symmetric])
    from True "1.prems" have "DoExpansion_loop T Len (i + 1) (out @ [T ! i, 0])
      = (out @ [T ! i, 0]) @ concat (map (\<lambda>b. [b, 0]) (drop (i + 1) (take Len T)))"
      by (intro "1.IH") simp_all
    with True show ?thesis
      by (subst DoExpansion_loop.simps) (simp add: d)
  next
    case False
    with "1.prems" show ?thesis
      by (subst DoExpansion_loop.simps) simp
  qed
qed

lemma interleave_length: "length (concat (map (\<lambda>b. [b, 0::byte]) xs)) = 2 * length xs"
  by (induction xs) simp_all

lemma interleave_nth:
  "i < length xs \<Longrightarrow>
   concat (map (\<lambda>b. [b, 0::byte]) xs) ! (2 * i) = xs ! i \<and>
   concat (map (\<lambda>b. [b, 0::byte]) xs) ! (2 * i + 1) = 0"
proof (induction xs arbitrary: i)
  case Nil
  then show ?case by simp
next
  case (Cons x xs)
  then show ?case by (cases i) simp_all
qed

text \<open>
  Claim C4. For a buffer of \<open>n\<close> bytes with \<open>2 * n\<close> at most \<^verbatim>\<open>PAT_BUFSIZ\<close>,
  \<^verbatim>\<open>DoExpansion\<close> returns, and leaves \<open>2 * n\<close> bytes in the buffer: the byte
  at \<open>2 * i\<close> is the byte that was at \<open>i\<close>, the byte at \<open>2 * i + 1\<close> is zero, for
  every \<open>i\<close> below \<open>n\<close>.
\<close>

theorem DoExpansion_interleaves:
  assumes "length pBuf = n" and "2 * n \<le> PAT_BUFSIZ"
  shows "\<exists>out. DoExpansion PAT_BUFSIZ pBuf n = Inr out \<and> length out = 2 * n
    \<and> (\<forall>i<n. out ! (2 * i) = pBuf ! i \<and> out ! (2 * i + 1) = 0)"
proof -
  let ?out = "concat (map (\<lambda>b. [b, 0::byte]) pBuf)"
  have "DoExpansion PAT_BUFSIZ pBuf n = Inr ?out"
    using assms by (simp add: DoExpansion_def DoExpansion_loop_eq mult.commute)
  moreover have "length ?out = 2 * n"
    using assms(1) by (simp add: interleave_length)
  moreover have "\<forall>i<n. ?out ! (2 * i) = pBuf ! i \<and> ?out ! (2 * i + 1) = 0"
    using assms(1) interleave_nth [of _ pBuf] by simp
  ultimately show ?thesis by blast
qed

theorem DoExpansion_interleaves_witness:
  "DoExpansion 256 [0x2F, 0x6F, 0x6F] 3 = Inr [0x2F, 0, 0x6F, 0, 0x6F, 0]"
proof -
  obtain out where o: "DoExpansion 256 [0x2F, 0x6F, 0x6F] 3 = Inr out" and l: "length out = 6"
    and n: "\<forall>i<3. out ! (2 * i) = [0x2F, 0x6F, 0x6F :: byte] ! i \<and> out ! (2 * i + 1) = 0"
    using DoExpansion_interleaves [of "[0x2F, 0x6F, 0x6F]" 3 256] by auto
  from n [rule_format, of 0] n [rule_format, of 1] n [rule_format, of 2]
  have "out ! 0 = 0x2F" "out ! 1 = 0" "out ! 2 = 0x6F" "out ! 3 = 0" "out ! 4 = 0x6F" "out ! 5 = 0"
    by simp_all
  with l have "out = [0x2F, 0, 0x6F, 0, 0x6F, 0]"
    by (intro nth_equalityI) (auto simp: less_Suc_eq numeral_eq_Suc)
  with o show ?thesis by simp
qed

lemma DoExpansion_length:
  "DoExpansion P pBuf Len = Inr out \<Longrightarrow> Len \<le> length pBuf \<Longrightarrow> length out \<le> P"
  by (auto simp: DoExpansion_def DoExpansion_loop_eq interleave_length split: if_splits)

subsection \<open>The length of a compiled pattern\<close>

lemma decode_pairs_zeros: "decode_pairs (replicate (2 * n) CHR ''0'') = replicate n 0"
  by (induction n) (simp_all add: hex_value_def isdigit_def)

text \<open>
  Claim C5 says that every way to compile a pattern fails with \<open>PatternTooLong\<close> or
  stores at most \<^verbatim>\<open>PAT_BUFSIZ\<close> bytes. \<^verbatim>\<open>GetPattern\<close> and
  \<^verbatim>\<open>DoExpansion\<close> compare a length with \<^verbatim>\<open>PAT_BUFSIZ\<close>
  (\<open>GetPattern_length\<close>, \<open>DoExpansion_length\<close>); \<^verbatim>\<open>ParseHexLine\<close> never
  does. Whatever \<^verbatim>\<open>PAT_BUFSIZ\<close> is, the hex literal of
  \<open>2 * (PAT_BUFSIZ + 1)\<close> zeros compiles, with no \<^verbatim>\<open>Abort\<close>, to
  \<open>PAT_BUFSIZ + 1\<close> bytes: one more than the buffer holds.
\<close>

theorem hex_pattern_exceeds_buffer:
  "compile_pattern PAT_BUFSIZ True False (replicate (2 * Suc PAT_BUFSIZ) CHR ''0'')
     = Inr (replicate (Suc PAT_BUFSIZ) 0)"
proof -
  have "ParseHexLine (replicate (2 * Suc PAT_BUFSIZ) CHR ''0'')
     = Inr (decode_pairs (replicate (2 * Suc PAT_BUFSIZ) CHR ''0''))"
    by (intro ParseHexLine_decodes [THEN conjunct1]) (simp_all add: isxdigit_def isdigit_def)
  then have "ParseHexLine (replicate (2 * Suc PAT_BUFSIZ) CHR ''0'') = Inr (replicate (Suc PAT_BUFSIZ) 0)"
    by (simp only: decode_pairs_zeros)
  then show ?thesis
    by (simp add: compile_pattern_def)
qed

section \<open>Properties of the replace modes\<close>

subsection \<open>StreamSearchReplace\<close>

text \<open>What holds of claim C8: two matches or more print the line of the changed
  occurrences on \<^verbatim>\<open>stderr\<close>, and the count -1 ends in the \<^verbatim>\<open>Abort\<close>
  for a write error, with no line printed.\<close>

lemma StreamSearchReplace_summary:
  "fSearchReplace s \<Longrightarrow> bmg_matches env > 1 \<Longrightarrow>
   fst (StreamSearchReplace env s) = Returned \<and>
   messages (snd (StreamSearchReplace env s))
     = messages s @ [(Stderr, OccurrencesChanged ''stdin'' (bmg_matches env) ''s'')]"
  by (simp add: StreamSearchReplace_def BMG_SearchReplace_def say_def str_def)

lemma StreamSearchReplace_write_error:
  "fSearchReplace s \<Longrightarrow> bmg_matches env = - 1 \<Longrightarrow>
   fst (StreamSearchReplace env s) = Aborted WriteErrorStdout \<and>
   messages (snd (StreamSearchReplace env s)) = messages s"
  by (simp add: StreamSearchReplace_def BMG_SearchReplace_def)

text \<open>
  Claim C8 says that every count of one or more prints the line of the changed
  occurrences. The test of line 711 is \<^verbatim>\<open>nMatches > 1\<close>: with one match
  \<^verbatim>\<open>StreamSearchReplace\<close> returns and has printed nothing, for every result of the
  operating system and every state in which \<^verbatim>\<open>fSearchReplace\<close> is set.
\<close>

theorem StreamSearchReplace_single_match_silent:
  "fst (StreamSearchReplace (env\<lparr>bmg_matches := 1\<rparr>) (s\<lparr>fSearchReplace := True\<rparr>)) = Returned
   \<and> messages (snd (StreamSearchReplace (env\<lparr>bmg_matches := 1\<rparr>) (s\<lparr>fSearchReplace := True\<rparr>)))
       = messages s"
  by (simp add: StreamSearchReplace_def BMG_SearchReplace_def)

subsection \<open>TmpName\<close>

text \<open>The name \<^verbatim>\<open>TmpName\<close> returns is the name of no file.\<close>

lemma TmpName_loop_fresh:
  "TmpName_loop env files spec i n = (Some f, n') \<Longrightarrow> files (file_of env f) = None"
proof (induction env files spec i n rule: TmpName_loop.induct)
  case (1 env files spec i n)
  from "1.prems" show ?case
    by (subst (asm) TmpName_loop.simps) (auto simp: stat_def split: if_splits dest: "1.IH")
qed

lemma TmpName_fresh:
  "TmpName env files pPath pPrefix tmpnum = (Some f, n') \<Longrightarrow> files (file_of env f) = None"
  by (auto simp: TmpName_def Let_def split: prod.splits dest: TmpName_loop_fresh)

subsection \<open>The critical section\<close>

lemma c_remove_flag: "c_remove env p s = (r, s') \<Longrightarrow> fCriticalPart s' = fCriticalPart s"
  by (auto simp: c_remove_def split: option.splits if_splits)

lemma c_rename_flag: "c_rename env a b s = (r, s') \<Longrightarrow> fCriticalPart s' = fCriticalPart s"
  by (auto simp: c_rename_def split: option.splits if_splits)

lemma say_flag [simp]: "fCriticalPart (say m s) = fCriticalPart s"
  by (simp add: say_def)

lemma step_critical:
  assumes "critical_label l \<longrightarrow> fCriticalPart s" and "step env inp (l, s) = (l', s')"
  shows "critical_label l' \<longrightarrow> fCriticalPart s'"
  using assms
  by (cases l)
    (auto simp: fCheckFile_def fopen_wb_def BMG_SearchReplace_def
      dest: c_remove_flag c_rename_flag
      split: prod.splits bool.splits option.splits if_splits handle.splits)

lemma interrupt_critical:
  assumes "critical_label l \<longrightarrow> fCriticalPart s" and "interrupt env (l, s) = (l', s')"
  shows "critical_label l' \<longrightarrow> fCriticalPart s'"
  using assms by (auto simp: interrupt_def CtrlBreak_def split: if_splits)

lemma reachable_critical:
  "reachable env inp s0 c \<Longrightarrow> critical_label (fst c) \<longrightarrow> fCriticalPart (snd c)"
proof (induction rule: reachable.induct)
  case start
  show ?case by simp
next
  case (step c)
  then show ?case
    using step_critical [of "fst c" "snd c" env inp "fst (step env inp c)" "snd (step env inp c)"]
    by simp
next
  case (interrupt c)
  then show ?case
    using interrupt_critical [of "fst c" "snd c" env "fst (interrupt env c)" "snd (interrupt env c)"]
    by simp
qed

lemma step_stop: "is_stop (fst c) \<Longrightarrow> step env inp c = c"
  by (cases c, cases "fst c") auto

lemma reachable_steps: "reachable env inp s0 ((step env inp ^^ n) (L891, s0))"
proof (induction n)
  case 0
  show ?case by (simp add: reachable.start)
next
  case (Suc n)
  show ?case
  proof (cases "is_stop (fst ((step env inp ^^ n) (L891, s0)))")
    case True
    with Suc show ?thesis by (simp add: step_stop)
  next
    case False
    with Suc show ?thesis by (simp add: reachable.step)
  qed
qed

text \<open>
  Claim C7. In every configuration that a turn of \<^verbatim>\<open>SearchReplace\<close> reaches,
  with interrupts at any point, and that is in the commit (from the statement that
  removes the input file to the end of the rename, or its \<^verbatim>\<open>Abort\<close>),
  \<^verbatim>\<open>fCriticalPart\<close> is set, and an interrupt there changes nothing: the handler
  returns, the program is at the same statement in the same state. In any state with
  \<^verbatim>\<open>fCriticalPart\<close> set the handler returns and leaves the state, and so every
  file, as it is.
\<close>

theorem commit_section_uninterrupted:
  assumes "reachable env inp s0 (l, s)" and "commit_section l"
  shows "fCriticalPart s \<and> CtrlBreak env s = (Returned, s) \<and> interrupt env (l, s) = (l, s)
    \<and> (\<forall>s'. fCriticalPart s' \<longrightarrow> CtrlBreak env s' = (Returned, s'))"
proof -
  from assms(2) have "critical_label l" by (induction l rule: commit_section.induct) simp_all
  with reachable_critical [OF assms(1)] have "fCriticalPart s" by simp
  then show ?thesis by (simp add: CtrlBreak_def interrupt_def)
qed

theorem commit_section_uninterrupted_witness:
  "fst ((step example_env ''f'' ^^ 11) (L891, example_state)) = L963
   \<and> fCriticalPart (snd ((step example_env ''f'' ^^ 11) (L891, example_state)))
   \<and> CtrlBreak example_env (snd ((step example_env ''f'' ^^ 11) (L891, example_state)))
       = (Returned, snd ((step example_env ''f'' ^^ 11) (L891, example_state)))"
proof -
  let ?c = "(step example_env ''f'' ^^ 11) (L891, example_state)"
  have r: "reachable example_env ''f'' example_state (fst ?c, snd ?c)"
    by (simp add: reachable_steps)
  have l: "fst ?c = L963" by code_simp
  then have "commit_section (fst ?c)" by simp
  from commit_section_uninterrupted [OF r this] l show ?thesis by simp
qed

subsection \<open>The temporary file\<close>

lemma ended_same: "fs s = fs s0 \<Longrightarrow> ended env inp s0 out s"
  by (auto simp: ended_def)

lemma ended_changed:
  "fs s0 (file_of env inp) \<noteq> None \<Longrightarrow> \<forall>p. p \<noteq> file_of env inp \<longrightarrow> fs s p = fs s0 p \<Longrightarrow>
   ended env inp s0 out s"
  unfolding ended_def by (metis option.distinct(1))

lemma ended_temp: "with_temp env inp s0 s \<Longrightarrow> ended env inp s0 out s"
  unfolding ended_def with_temp_def by (metis option.distinct(1))

lemma with_temp_say [simp]: "with_temp env inp s0 (say m s) = with_temp env inp s0 s"
  by (simp add: with_temp_def say_def)

lemma with_temp_upd [simp]:
  "with_temp env inp s0 (s\<lparr>fCriticalPart := b\<rparr>) = with_temp env inp s0 s"
  "with_temp env inp s0 (s\<lparr>fpOut := h\<rparr>) = with_temp env inp s0 s"
  "with_temp env inp s0 (s\<lparr>nMatches := n\<rparr>) = with_temp env inp s0 s"
  by (simp_all add: with_temp_def)

lemma fs_say [simp]: "fs (say m s) = fs s" "pOutFile (say m s) = pOutFile s"
  "pInputFile (say m s) = pInputFile s"
  by (simp_all add: say_def)

lemma remove_temp:
  assumes "with_temp env inp s0 s" and "c_remove env (pOutFile s) s = (r, s')"
  shows "if r then fs s' = fs s0 else with_temp env inp s0 s'"
  using assms by (auto simp: with_temp_def c_remove_def fun_eq_iff split: if_splits)

lemma remove_input:
  assumes "with_temp env inp s0 s" and "c_remove env (pInputFile s) s = (r, s')"
  shows "if r then inv env inp s0 L963 s' else with_temp env inp s0 s'"
  using assms by (auto simp: with_temp_def c_remove_def split: if_splits)

lemma rename_temp:
  assumes "inv env inp s0 L963 s" and "c_rename env (pOutFile s) (pInputFile s) s = (r, s')"
  shows "if r then inv env inp s0 L966 s' else ended env inp s0 (Aborted (CannotRename a b)) s'"
proof (cases r)
  case True
  with assms show ?thesis
    by (auto simp: c_rename_def split: if_splits)
next
  case False
  with assms(2) have "fs s' = fs s" "pOutFile s' = pOutFile s"
    by (auto simp: c_rename_def split: if_splits option.splits)
  moreover from assms(1)
  have "\<forall>p. fs s p \<noteq> None \<and> fs s0 p = None \<longrightarrow> (\<exists>t. pOutFile s = Some t \<and> file_of env t = p)"
    by (metis inv.simps(19))
  ultimately show ?thesis
    using False by (simp add: ended_def)
qed

lemma open_temp:
  assumes "inv env inp s0 L908 s" and "fopen_wb env (pOutFile s) s = (r, s')"
  shows "if r then inv env inp s0 L913 s' else fs s' = fs s0"
  using assms by (auto simp: fopen_wb_def with_temp_def split: if_splits)

lemma write_temp:
  assumes "inv env inp s0 L931 s" and "BMG_SearchReplace env s = (n, s')"
  shows "with_temp env inp s0 s'"
  using assms by (auto simp: BMG_SearchReplace_def with_temp_def)

lemma remove_temp_step:
  assumes wt: "with_temp env inp s0 s"
    and fs': "fs s1 = fs s0 \<Longrightarrow> fs s0 (file_of env inp) \<noteq> None \<Longrightarrow> inv env inp s0 l1 s1"
    and st: "(case c_remove env (pOutFile s) s of
        (False, s') \<Rightarrow> (Stop (Aborted (CannotRemoveOutput (str (pOutFile s')))), s')
      | (True, s') \<Rightarrow> (l1, s')) = (l', s1)"
  shows "inv env inp s0 l' s1"
proof -
  obtain r s2 where c: "c_remove env (pOutFile s) s = (r, s2)"
    by (cases "c_remove env (pOutFile s) s")
  show ?thesis
  proof (cases r)
    case True
    with c st have "l' = l1" "s1 = s2" by auto
    with remove_temp [OF wt c] True fs' wt show ?thesis by (simp add: with_temp_def)
  next
    case False
    with c st have "l' = Stop (Aborted (CannotRemoveOutput (str (pOutFile s2))))" "s1 = s2"
      by auto
    with remove_temp [OF wt c] False show ?thesis by (simp add: ended_temp)
  qed
qed

lemma step_inv:
  assumes "inv env inp s0 l s" and "step env inp (l, s) = (l', s')"
  shows "inv env inp s0 l' s'"
proof (cases l)
  case L891
  with assms show ?thesis by auto
next
  case L893
  with assms show ?thesis
    by (auto simp: fCheckFile_def stat_def ended_same split: if_splits)
next
  case L896
  with assms show ?thesis by (auto simp: ended_same split: if_splits)
next
  case L904
  with assms show ?thesis by auto
next
  case L905
  obtain f n where t: "TmpName env (fs s) (pOutFile s) (Some ''gsr_'') (TmpNum s) = (f, n)"
    by (cases "TmpName env (fs s) (pOutFile s) (Some ''gsr_'') (TmpNum s)")
  show ?thesis
  proof (cases f)
    case None
    with t assms L905 show ?thesis by (auto simp: ended_same)
  next
    case (Some a)
    with t have "fs s (file_of env a) = None" by (auto dest: TmpName_fresh)
    with Some t assms L905 show ?thesis by auto
  qed
next
  case L908
  obtain r s1 where c: "fopen_wb env (pOutFile s) s = (r, s1)"
    by (cases "fopen_wb env (pOutFile s) s")
  with assms L908 open_temp [OF _ c, of inp s0] show ?thesis
    by (cases r) (auto simp: ended_same)
next
  case L913
  with assms show ?thesis by auto
next
  case L931
  obtain n s1 where c: "BMG_SearchReplace env s = (n, s1)"
    by (cases "BMG_SearchReplace env s")
  with assms L931 write_temp [OF _ c, of inp s0] show ?thesis
    by auto
next
  case L933
  with assms show ?thesis by auto
next
  case L936
  with assms show ?thesis by auto
next
  case L940
  with assms show ?thesis by auto
next
  case L941
  with assms show ?thesis
    by (auto intro: remove_temp_step [where ?l1.0 = L943])
next
  case L943
  with assms show ?thesis by (auto simp: ended_same)
next
  case L948
  with assms show ?thesis
    by (auto intro: remove_temp_step [where ?l1.0 = L969])
next
  case L955
  obtain r s1 where c: "c_remove env (pInputFile s) s = (r, s1)"
    by (cases "c_remove env (pInputFile s) s")
  with assms L955 remove_input [OF _ c, of inp s0] show ?thesis
    by (cases r) auto
next
  case L957
  with assms show ?thesis by auto
next
  case L958
  with assms show ?thesis
    by (auto intro: remove_temp_step [where ?l1.0 = L960])
next
  case L960
  with assms show ?thesis by (auto simp: ended_same)
next
  case L963
  obtain r s1 where c: "c_rename env (pOutFile s) (pInputFile s) s = (r, s1)"
    by (cases "c_rename env (pOutFile s) (pInputFile s) s")
  with assms L963 rename_temp [OF _ c, of inp s0] show ?thesis
    by (cases r) auto
next
  case L966
  with assms show ?thesis by auto
next
  case L969
  with assms show ?thesis by (auto simp: ended_changed)
next
  case (Stop out)
  with assms show ?thesis by auto
qed

lemma inv_new_files:
  assumes "inv env inp s0 l s" and "\<not> is_stop l"
  shows "(\<forall>p. fs s p \<noteq> None \<and> fs s0 p = None \<longrightarrow> (\<exists>t. pOutFile s = Some t \<and> file_of env t = p))
    \<and> ((\<exists>p. fs s p \<noteq> None \<and> fs s0 p = None) \<longrightarrow>
          (fs s0 (file_of env inp) \<noteq> None \<and> fs s (file_of env inp) = fs s0 (file_of env inp))
          \<or> l = L963)"
proof -
  have a: ?thesis if "fs s = fs s0"
    using that by auto
  have b: ?thesis if "with_temp env inp s0 s"
    using that unfolding with_temp_def by (metis option.distinct(1))
  have c: ?thesis
    if "fs s0 (file_of env inp) \<noteq> None" "\<forall>p. p \<noteq> file_of env inp \<longrightarrow> fs s p = fs s0 p"
    using that by (metis option.distinct(1))
  have d: ?thesis if "l = L963"
    using that assms(1) by (simp, metis option.distinct(1))
  from assms consider "fs s = fs s0" | "with_temp env inp s0 s"
    | "fs s0 (file_of env inp) \<noteq> None \<and> (\<forall>p. p \<noteq> file_of env inp \<longrightarrow> fs s p = fs s0 p)"
    | "l = L963"
    by (cases l) auto
  then show ?thesis
    using a b c d by cases blast+
qed

lemma interrupt_inv:
  assumes i: "inv env inp s0 l s" and n: "\<not> is_stop l"
    and c: "critical_label l \<longrightarrow> fCriticalPart s"
    and st: "interrupt env (l, s) = (l', s')"
  shows "inv env inp s0 l' s'"
proof (cases "fCriticalPart s")
  case True
  with st i show ?thesis by (simp add: interrupt_def CtrlBreak_def)
next
  case False
  with c have nc: "\<not> critical_label l" by simp
  from False st have l': "l' = Stop Exit_Failure"
    by (auto simp: interrupt_def CtrlBreak_def split: if_splits)
  from nc have "l \<noteq> L963" by auto
  with inv_new_files [OF i n]
  have e: "ended env inp s0 Exit_Failure s" by (simp add: ended_def)
  show ?thesis
  proof (cases "fSearchReplace s \<and> pOutFile s \<noteq> None \<and> \<not> fFilter s")
    case no: False
    with False st have "s' = s" by (auto simp: interrupt_def CtrlBreak_def)
    with e l' show ?thesis by simp
  next
    case True
    then obtain t where t: "pOutFile s = Some t" by auto
    from True False st have s': "s' = snd (c_remove env (pOutFile s) s)"
      by (auto simp: interrupt_def CtrlBreak_def)
    have o: "pOutFile s' = pOutFile s"
      using t by (auto simp: s' c_remove_def)
    have "fs s' = fs s \<or> fs s' = (fs s)(file_of env t := None)"
      using t by (auto simp: s' c_remove_def)
    then have "ended env inp s0 Exit_Failure s'"
    proof
      assume "fs s' = fs s"
      with e o show ?thesis by (simp add: ended_def)
    next
      assume r: "fs s' = (fs s)(file_of env t := None)"
      have "fs s' p = None" if "fs s0 p = None" for p
        using that e t r unfolding ended_def by (cases "p = file_of env t") auto
      then show ?thesis by (auto simp: ended_def)
    qed
    with l' show ?thesis by simp
  qed
qed

lemma reachable_inv:
  "reachable env inp s0 c \<Longrightarrow> inv env inp s0 (fst c) (snd c)"
proof (induction rule: reachable.induct)
  case start
  show ?case by simp
next
  case (step c)
  then show ?case
    using step_inv [of env inp s0 "fst c" "snd c" "fst (step env inp c)" "snd (step env inp c)"]
    by simp
next
  case (interrupt c)
  then show ?case
    using interrupt_inv [of env inp s0 "fst c" "snd c" "fst (interrupt env c)" "snd (interrupt env c)"]
      reachable_critical [of env inp s0 c]
    by simp
qed

text \<open>
  Claim C9, as the code has it. In every configuration that a turn of
  \<^verbatim>\<open>SearchReplace\<close> for the file \<open>inp\<close> reaches from the state \<open>s0\<close>,
  with interrupts at any point: a file that did not exist in \<open>s0\<close> is the file
  \<^verbatim>\<open>pOutFile\<close> names, so there is at most one; and when there is one, the input
  file exists with the bytes it had in \<open>s0\<close>, unless \<^verbatim>\<open>fCriticalPart\<close> is set
  and the program is at the rename of line 963, the input file removed, or has ended in
  the \<^verbatim>\<open>Abort\<close> of a failed rename.
\<close>

theorem temporary_file_invariant:
  assumes "reachable env inp s0 (l, s)"
  shows "(\<forall>p. fs s p \<noteq> None \<and> fs s0 p = None \<longrightarrow> (\<exists>t. pOutFile s = Some t \<and> file_of env t = p))
    \<and> ((\<exists>p. fs s p \<noteq> None \<and> fs s0 p = None) \<longrightarrow>
          (fs s0 (file_of env inp) \<noteq> None \<and> fs s (file_of env inp) = fs s0 (file_of env inp))
          \<or> (fCriticalPart s \<and> (l = L963 \<or> (\<exists>a b. l = Stop (Aborted (CannotRename a b))))))"
proof (cases "is_stop l")
  case False
  from reachable_inv [OF assms] have i: "inv env inp s0 l s" by simp
  from reachable_critical [OF assms] have "l = L963 \<longrightarrow> fCriticalPart s" by auto
  with inv_new_files [OF i False] show ?thesis by blast
next
  case True
  then obtain out where l: "l = Stop out" by (cases l) auto
  from reachable_inv [OF assms] l have e: "ended env inp s0 out s" by simp
  from reachable_critical [OF assms] l
  have "(\<exists>a b. out = Aborted (CannotRename a b)) \<longrightarrow> fCriticalPart s" by auto
  with e l show ?thesis unfolding ended_def by blast
qed

theorem temporary_file_invariant_witness:
  "fs (snd ((step example_env ''f'' ^^ 8) (L891, example_state))) ''gsr_0000.tmp'' = Some [98]
   \<and> fs example_state ''gsr_0000.tmp'' = None
   \<and> pOutFile (snd ((step example_env ''f'' ^^ 8) (L891, example_state))) = Some ''gsr_0000.tmp''
   \<and> fs (snd ((step example_env ''f'' ^^ 8) (L891, example_state))) ''f'' = Some [97]"
proof -
  let ?c = "(step example_env ''f'' ^^ 8) (L891, example_state)"
  have r: "reachable example_env ''f'' example_state (fst ?c, snd ?c)"
    by (simp add: reachable_steps)
  have l: "fst ?c = L933" by code_simp
  have t: "fs (snd ?c) ''gsr_0000.tmp'' = Some [98]" by code_simp
  have t0: "fs example_state ''gsr_0000.tmp'' = None" by code_simp
  have f0: "fs example_state ''f'' = Some [97]" by code_simp
  have n: "file_of example_env = (\<lambda>f. f)" by (simp add: example_env_def)
  note i = temporary_file_invariant [OF r]
  from i [THEN conjunct1, rule_format, of "''gsr_0000.tmp''"] t t0
  have "pOutFile (snd ?c) = Some ''gsr_0000.tmp''" by (simp add: n)
  moreover from i [THEN conjunct2] t t0 l have "fs (snd ?c) ''f'' = fs example_state ''f''"
    by (auto simp: n)
  ultimately show ?thesis using t t0 f0 by simp
qed

text \<open>
  Claim C9 as stated fails. Eleven steps into the turn for the file \<^verbatim>\<open>f\<close>, with
  one match, the program is at the rename of line 963: the temporary file
  \<^verbatim>\<open>gsr_0000.tmp\<close> exists and the input file, which was there at the start, has
  been removed.
\<close>

theorem temporary_file_counterexample:
  "fst ((step example_env ''f'' ^^ 11) (L891, example_state)) = L963
   \<and> fs (snd ((step example_env ''f'' ^^ 11) (L891, example_state))) ''gsr_0000.tmp'' = Some [98]
   \<and> fs (snd ((step example_env ''f'' ^^ 11) (L891, example_state))) ''f'' = None
   \<and> fs example_state ''f'' = Some [97]"
  by code_simp

subsection \<open>Zero matches\<close>

lemma exec_stop [simp]: "exec env inp (Stop out, s) = (Stop out, s)"
  by (simp add: exec.simps)

lemma exec_step: "\<not> is_stop l \<Longrightarrow> exec env inp (l, s) = exec env inp (step env inp (l, s))"
  by (subst exec.simps) simp

lemma exec_stops: "is_stop (fst (exec env inp c))"
  by (induction env inp c rule: exec.induct) (subst exec.simps, simp)

text \<open>The end of a turn that no interrupt cuts short is a configuration the turn
  reaches.\<close>

lemma reachable_exec:
  "reachable env inp s0 c \<Longrightarrow> reachable env inp s0 (exec env inp c)"
proof (induction env inp c rule: exec.induct)
  case (1 env inp c)
  show ?case
  proof (cases "is_stop (fst c)")
    case True
    with "1.prems" show ?thesis by (subst exec.simps) simp
  next
    case False
    with "1.prems" have "reachable env inp s0 (step env inp c)"
      by (simp add: reachable.step)
    with "1.IH" [OF False] False show ?thesis by (subst exec.simps) simp
  qed
qed

lemma exec_L948:
  "exec env inp (L948, s) =
     (case c_remove env (pOutFile s) s of
        (False, s') \<Rightarrow> (Stop (Aborted (CannotRemoveOutput (str (pOutFile s')))), s')
      | (True, s') \<Rightarrow> (Stop Returned, s'\<lparr>fCriticalPart := False\<rparr>))"
  by (simp add: exec_step split: prod.splits bool.splits)

lemma exec_L908_zero:
  assumes "bmg_matches env = 0"
  shows "exec env inp (L908, s) =
     (case fopen_wb env (pOutFile s) s of
        (False, s') \<Rightarrow> (Stop (Aborted (CannotOpenOutput (str (pOutFile s')))), s')
      | (True, s') \<Rightarrow>
          exec env inp (L948, (snd (BMG_SearchReplace env s'))\<lparr>nMatches := 0, fpOut := None, fCriticalPart := True\<rparr>))"
  using assms
  by (simp add: exec_step BMG_SearchReplace_def split: prod.splits bool.splits)

lemma exec_L891:
  "exec env inp (L891, s) =
     (if fs s (file_of env inp) = None
      then (Stop Returned, say (UnableToOpenInput inp) (s\<lparr>pInputFile := Some inp\<rparr>))
      else if \<not> can_open env inp
      then (Stop Returned, say (UnableToOpenInput inp) (s\<lparr>pInputFile := Some inp\<rparr>))
      else exec env inp (L905, s\<lparr>pInputFile := Some inp, pOutFile := Some (ExtractPathFromFSpec inp)\<rparr>))"
  by (simp add: exec_step fCheckFile_def stat_def fopen_rb_def str_def)

lemma exec_L905:
  "exec env inp (L905, s) =
     (case TmpName env (fs s) (pOutFile s) (Some ''gsr_'') (TmpNum s) of
        (None, n) \<Rightarrow> (Stop (Aborted NoTmpName), s\<lparr>pOutFile := None, TmpNum := n\<rparr>)
      | (Some f, n) \<Rightarrow> exec env inp (L908, s\<lparr>pOutFile := Some f, TmpNum := n\<rparr>))"
  by (simp add: exec_step split: prod.splits option.splits)

lemma discarded_same:
  "fs s = fs s0 \<Longrightarrow> filter is_rename (calls s) = filter is_rename (calls s0) \<Longrightarrow>
   discarded env s0 l s"
  by (auto simp: discarded_def)

lemma inplace_from_L908:
  assumes z: "bmg_matches env = 0" and t: "pOutFile s1 = Some t" "fs s0 (file_of env t) = None"
    and s1: "fs s1 = fs s0" "filter is_rename (calls s1) = filter is_rename (calls s0)"
    and e: "exec env inp (L908, s1) = (l, s)"
  shows "discarded env s0 l s"
proof (cases "can_create env t")
  case False
  with e t z have "fs s = fs s0" "calls s = calls s1 @ [Create t False]"
    by (auto simp: exec_L908_zero fopen_wb_def s1)
  with s1 show ?thesis by (simp add: discarded_same)
next
  case True
  show ?thesis
  proof (cases "can_remove env t")
    case r: True
    with True e t z have "fs s = (fs s0)(file_of env t := None)"
      "calls s = calls s1 @ [Create t True, Remove t True]" "l = Stop Returned"
      by (auto simp: exec_L908_zero exec_L948 fopen_wb_def BMG_SearchReplace_def c_remove_def s1)
    with s1 t show ?thesis by (simp add: discarded_same fun_upd_idem)
  next
    case r: False
    with True e t z have "fs s = (fs s0)(file_of env t \<mapsto> bmg_output env)"
      "calls s = calls s1 @ [Create t True, Remove t False]"
      "l = Stop (Aborted (CannotRemoveOutput t))" "pOutFile s = Some t"
      by (auto simp: exec_L908_zero exec_L948 fopen_wb_def BMG_SearchReplace_def c_remove_def
        s1 str_def)
    with s1 t show ?thesis by (auto simp: discarded_def)
  qed
qed

lemma inplace_zero:
  assumes z: "bmg_matches env = 0" and e: "exec env inp (L891, s0) = (l, s)"
  shows "discarded env s0 l s"
proof (cases "fs s0 (file_of env inp) = None \<or> \<not> can_open env inp")
  case True
  with e have "s = say (UnableToOpenInput inp) (s0\<lparr>pInputFile := Some inp\<rparr>)"
    by (auto simp: exec_L891 split: if_splits)
  then show ?thesis by (simp add: discarded_same say_def)
next
  case False
  let ?s1 = "s0\<lparr>pInputFile := Some inp, pOutFile := Some (ExtractPathFromFSpec inp)\<rparr>"
  from False e have e1: "exec env inp (L905, ?s1) = (l, s)"
    by (auto simp: exec_L891 split: if_splits)
  obtain f n where tn: "TmpName env (fs ?s1) (pOutFile ?s1) (Some ''gsr_'') (TmpNum ?s1) = (f, n)"
    by (cases "TmpName env (fs ?s1) (pOutFile ?s1) (Some ''gsr_'') (TmpNum ?s1)")
  show ?thesis
  proof (cases f)
    case None
    with tn e1 have "s = ?s1\<lparr>pOutFile := None, TmpNum := n\<rparr>"
      by (simp add: exec_L905)
    then show ?thesis by (simp add: discarded_same)
  next
    case (Some t)
    with tn have fresh: "fs s0 (file_of env t) = None" by (auto dest: TmpName_fresh)
    let ?s2 = "?s1\<lparr>pOutFile := Some t, TmpNum := n\<rparr>"
    from Some tn e1 have e2: "exec env inp (L908, ?s2) = (l, s)"
      by (simp add: exec_L905)
    have "pOutFile ?s2 = Some t" "fs ?s2 = fs s0"
      "filter is_rename (calls ?s2) = filter is_rename (calls s0)"
      by simp_all
    from inplace_from_L908 [OF z this(1) fresh this(2,3) e2] show ?thesis .
  qed
qed

lemma pick_files_set:
  "pInputFile s \<noteq> None \<Longrightarrow> pOutFile s \<noteq> None \<Longrightarrow> pick_files fl s = s"
  by (induction fl arbitrary: s) simp_all

text \<open>\<^verbatim>\<open>OneSearchReplace\<close> with zero matches, for any two names: also when the
  output name refers to the input file.\<close>

lemma explicit_zero:
  assumes z: "bmg_matches env = 0"
    and e: "OneSearchReplace env (inp # out # rest) (s0\<lparr>pOutFile := None\<rparr>) = (r, s)"
  shows "discarded_output env out s0 r s"
proof -
  let ?s1 = "s0\<lparr>pOutFile := None, fpMsg := Stdout, pInputFile := None\<rparr>"
  have p: "pick_files (inp # out # rest) ?s1 = ?s1\<lparr>pInputFile := Some inp, pOutFile := Some out\<rparr>"
    by (simp add: pick_files_set)
  from e z show ?thesis
    unfolding OneSearchReplace_def
    by (simp only: p)
      (auto simp: Let_def fCheckFile_def stat_def fopen_rb_def fopen_wb_def
         BMG_SearchReplace_def c_remove_def say_def str_def discarded_output_def
         split: if_splits)
qed

lemma discarded_output_input:
  "discarded_output env out s0 r s \<Longrightarrow> file_of env inp \<noteq> file_of env out \<Longrightarrow>
   fs s (file_of env inp) = fs s0 (file_of env inp)"
  by (simp add: discarded_output_def)

text \<open>
  Claim C6, as the code has it. When \<^verbatim>\<open>BMG_SearchReplace\<close> returns 0, a turn
  of \<^verbatim>\<open>SearchReplace\<close> calls no \<^verbatim>\<open>rename\<close> and leaves every file that
  existed as it was; the temporary file is gone at the end of the turn, and is left only
  when \<^verbatim>\<open>remove\<close> has failed and the program has ended in the
  \<^verbatim>\<open>Abort\<close> for it. \<^verbatim>\<open>OneSearchReplace\<close>, for every input name
  and output name, calls no \<^verbatim>\<open>rename\<close>, leaves every file but the one the
  output name refers to as it was, has removed that file when it returns, and leaves it
  changed only in the same \<^verbatim>\<open>Abort\<close>; so the input file is as it was when the
  output name does not refer to it, by the same name or by another.
\<close>

theorem zero_matches_discard:
  assumes "bmg_matches env = 0"
  shows "discarded env s0 (fst (exec env inp (L891, s0))) (snd (exec env inp (L891, s0)))
    \<and> discarded_output env out s0
         (fst (OneSearchReplace env (inp # out # rest) (s0\<lparr>pOutFile := None\<rparr>)))
         (snd (OneSearchReplace env (inp # out # rest) (s0\<lparr>pOutFile := None\<rparr>)))
    \<and> (file_of env inp \<noteq> file_of env out \<longrightarrow>
         fs (snd (OneSearchReplace env (inp # out # rest) (s0\<lparr>pOutFile := None\<rparr>))) (file_of env inp)
           = fs s0 (file_of env inp))"
proof -
  obtain r s where e: "OneSearchReplace env (inp # out # rest) (s0\<lparr>pOutFile := None\<rparr>) = (r, s)"
    by (cases "OneSearchReplace env (inp # out # rest) (s0\<lparr>pOutFile := None\<rparr>)")
  from explicit_zero [OF assms e] have d: "discarded_output env out s0 r s" .
  from assms have "discarded env s0 (fst (exec env inp (L891, s0))) (snd (exec env inp (L891, s0)))"
    by (simp add: inplace_zero)
  with d e show ?thesis by (simp add: discarded_output_input)
qed

theorem zero_matches_discard_witness:
  "fst (exec (example_env\<lparr>bmg_matches := 0, bmg_output := [97]\<rparr>) ''f'' (L891, example_state))
     = Stop Returned
   \<and> fs (snd (exec (example_env\<lparr>bmg_matches := 0, bmg_output := [97]\<rparr>) ''f'' (L891, example_state)))
     = fs example_state
   \<and> fst (OneSearchReplace (example_env\<lparr>bmg_matches := 0, bmg_output := [97]\<rparr>) [''f'', ''g'']
        (example_state\<lparr>pOutFile := None\<rparr>)) = Returned
   \<and> fs (snd (OneSearchReplace (example_env\<lparr>bmg_matches := 0, bmg_output := [97]\<rparr>) [''f'', ''g'']
        (example_state\<lparr>pOutFile := None\<rparr>))) ''g'' = None
   \<and> fs (snd (OneSearchReplace (example_env\<lparr>bmg_matches := 0, bmg_output := [97]\<rparr>) [''f'', ''g'']
        (example_state\<lparr>pOutFile := None\<rparr>))) ''f'' = Some [97]"
proof -
  let ?env = "example_env\<lparr>bmg_matches := 0, bmg_output := [97]\<rparr>"
  have z: "bmg_matches ?env = 0" by simp
  have n: "file_of ?env = (\<lambda>f. f)" by (simp add: example_env_def)
  have l: "fst (exec ?env ''f'' (L891, example_state)) = Stop Returned" by code_simp
  have o: "fst (OneSearchReplace ?env [''f'', ''g''] (example_state\<lparr>pOutFile := None\<rparr>)) = Returned"
    by code_simp
  have f0: "fs example_state ''f'' = Some [97]" by code_simp
  have d: "file_of ?env ''f'' \<noteq> file_of ?env ''g''" by (simp add: n)
  note t = zero_matches_discard [OF z, of example_state "''f''" "''g''" "[]"]
  from t [THEN conjunct1] l
  have "fs (snd (exec ?env ''f'' (L891, example_state))) = fs example_state"
    by (simp add: discarded_def)
  moreover from t [THEN conjunct2, THEN conjunct1] o
  have "fs (snd (OneSearchReplace ?env [''f'', ''g''] (example_state\<lparr>pOutFile := None\<rparr>))) ''g'' = None"
    by (simp add: discarded_output_def n)
  moreover from t [THEN conjunct2, THEN conjunct2, rule_format, OF d] f0
  have "fs (snd (OneSearchReplace ?env [''f'', ''g''] (example_state\<lparr>pOutFile := None\<rparr>))) ''f'' = Some [97]"
    by (simp add: n)
  ultimately show ?thesis using l o by simp
qed

text \<open>
  Claim C6 as stated fails in two ways, both with zero matches. When
  \<^verbatim>\<open>remove\<close> fails, the turn of \<^verbatim>\<open>SearchReplace\<close> ends in an
  \<^verbatim>\<open>Abort\<close> and the temporary file is still there. And
  \<^verbatim>\<open>OneSearchReplace\<close> with \<^verbatim>\<open>fForce\<close> set and an output name that
  refers to the input file returns with the input file removed: with the name
  \<^verbatim>\<open>f\<close> given twice, and with the names \<^verbatim>\<open>f\<close> and
  \<^verbatim>\<open>./f\<close>.
\<close>

theorem zero_matches_counterexample:
  "fst (exec (example_env\<lparr>bmg_matches := 0, bmg_output := [97], can_remove := (\<lambda>f. False)\<rparr>)
       ''f'' (L891, example_state)) = Stop (Aborted (CannotRemoveOutput ''gsr_0000.tmp''))
   \<and> fs (snd (exec (example_env\<lparr>bmg_matches := 0, bmg_output := [97], can_remove := (\<lambda>f. False)\<rparr>)
       ''f'' (L891, example_state))) ''gsr_0000.tmp'' = Some [97]
   \<and> fst (OneSearchReplace (example_env\<lparr>bmg_matches := 0, bmg_output := []\<rparr>) [''f'', ''f'']
       (example_state\<lparr>fForce := True\<rparr>)) = Returned
   \<and> fs (snd (OneSearchReplace (example_env\<lparr>bmg_matches := 0, bmg_output := []\<rparr>) [''f'', ''f'']
       (example_state\<lparr>fForce := True\<rparr>))) ''f'' = None
   \<and> fst (OneSearchReplace (alias_env\<lparr>bmg_matches := 0, bmg_output := []\<rparr>) [''f'', ''./f'']
       (example_state\<lparr>fForce := True\<rparr>)) = Returned
   \<and> fs (snd (OneSearchReplace (alias_env\<lparr>bmg_matches := 0, bmg_output := []\<rparr>) [''f'', ''./f'']
       (example_state\<lparr>fForce := True\<rparr>))) ''f'' = None
   \<and> fs (example_state\<lparr>fForce := True\<rparr>) ''f'' = Some [97]"
  by code_simp

end
